theory Spec2Isabelle
  imports Complex_Main "HOL-Library.Monad_Syntax" "HOL-Library.Code_Target_Nat"
begin

section \<open>JavaScript strings\<close>

text \<open>
  A JavaScript string is a finite sequence of UTF-16 code units. A code unit is modelled
  by its number, a string by the list of its code units, so that \<open>length\<close> is the
  string's \<open>.length\<close>. \<open>js\<close> turns an ASCII literal into such a string.
\<close>

type_synonym jsstring = "nat list"

definition js :: "string \<Rightarrow> jsstring" where
  "js s = map of_char s"

text \<open>
  The regular-expression class \<open>\s\<close> (ECMAScript WhiteSpace and LineTerminator code
  points), which is also the set of characters \<open>parseInt\<close> skips at the start of its
  argument; the class \<open>\d\<close> is \<open>0\<close>..\<open>9\<close> only.
\<close>

definition is_space :: "nat \<Rightarrow> bool" where
  "is_space c =
     (c = 0x09 \<or> c = 0x0A \<or> c = 0x0B \<or> c = 0x0C \<or> c = 0x0D \<or> c = 0x20 \<or> c = 0xA0
      \<or> c = 0x1680 \<or> (0x2000 \<le> c \<and> c \<le> 0x200A) \<or> c = 0x2028 \<or> c = 0x2029
      \<or> c = 0x202F \<or> c = 0x205F \<or> c = 0x3000 \<or> c = 0xFEFF)"

definition is_digit :: "nat \<Rightarrow> bool" where
  "is_digit c = (0x30 \<le> c \<and> c \<le> 0x39)"

definition hyphen :: nat where
  "hyphen = 0x2D"

definition digit_value :: "nat \<Rightarrow> int" where
  "digit_value c = int c - 0x30"

section \<open>luhnCheck\<close>

text \<open>
  \<open>cardNumber.replace(/\s|-/g, '')\<close> deletes every character of the class \<open>\s\<close> and
  every hyphen.
\<close>

definition cleanedCardNumber :: "jsstring \<Rightarrow> jsstring" where
  "cleanedCardNumber cardNumber = filter (\<lambda>c. \<not> (is_space c \<or> c = hyphen)) cardNumber"

text \<open>\<open>/^\d+$/.test(s)\<close>: one digit at least, and digits only.\<close>

definition all_digits :: "jsstring \<Rightarrow> bool" where
  "all_digits s = (s \<noteq> [] \<and> list_all is_digit s)"

text \<open>
  The loop \<open>for (i = length - 1; i >= 0; i--)\<close> visits the characters from the last to
  the first; \<open>luhn_loop\<close> takes them in that order, with the loop's variables \<open>sum\<close>
  (written \<open>acc\<close>) and \<open>double\<close> as accumulators. The sum is at most nine times the
  string's length, far below \<open>2 ^ 53\<close>, so the arithmetic of JavaScript numbers is
  exact on it.
\<close>

fun luhn_loop :: "jsstring \<Rightarrow> int \<Rightarrow> bool \<Rightarrow> int" where
  "luhn_loop [] acc double = acc"
| "luhn_loop (c # cs) acc double =
     (let digit = digit_value c;
          digit = (if double
                   then (let digit = digit * 2 in if digit > 9 then digit - 9 else digit)
                   else digit)
      in luhn_loop cs (acc + digit) (\<not> double))"

definition luhnCheck :: "jsstring \<Rightarrow> bool" where
  "luhnCheck cardNumber =
     (let cleaned = cleanedCardNumber cardNumber
      in if \<not> all_digits cleaned then False
         else luhn_loop (rev cleaned) 0 False mod 10 = 0)"

section \<open>parseInt and isExpiryValid\<close>

text \<open>
  \<open>parseInt(s, 10)\<close>: skip leading white space, take one optional sign, read the longest
  run of decimal digits that follows and ignore the rest; no digit gives \<open>NaN\<close>, which
  is \<open>None\<close> here. The result is a JavaScript number, that is the nearest double to the
  integer read. Rounding to the nearest double is monotone and keeps every integer below
  \<open>2 ^ 53\<close>, so the comparisons of \<open>isExpiryValid\<close> with 1, 12, the current year and the
  current month give the same answer as on the integer itself.
\<close>

fun digits_value :: "jsstring \<Rightarrow> int \<Rightarrow> int" where
  "digits_value [] acc = acc"
| "digits_value (c # cs) acc = digits_value cs (acc * 10 + digit_value c)"

definition parseInt :: "jsstring \<Rightarrow> int option" where
  "parseInt s =
     (let t = dropWhile is_space s;
          neg = (case t of [] \<Rightarrow> False | c # _ \<Rightarrow> c = hyphen);
          u = (case t of [] \<Rightarrow> [] | c # r \<Rightarrow> if c = 0x2B \<or> c = hyphen then r else t);
          ds = takeWhile is_digit u
      in if ds = [] then None
         else Some (if neg then - digits_value ds 0 else digits_value ds 0))"

text \<open>
  The clock: what \<open>new Date()\<close> gives at the call, \<open>getMonth\<close> counting from 0.
\<close>

record date =
  getFullYear :: int
  getMonth :: int

definition isExpiryValid :: "date \<Rightarrow> jsstring \<Rightarrow> jsstring \<Rightarrow> bool" where
  "isExpiryValid now month year =
     (let currentYear = getFullYear now;
          currentMonth = getMonth now + 1;
          fullYear = (if length year = 2 then map_option (\<lambda>y. 2000 + y) (parseInt year)
                      else parseInt year);
          monthInt = parseInt month
      in case monthInt of None \<Rightarrow> False
         | Some m \<Rightarrow>
             (case fullYear of None \<Rightarrow> False
              | Some y \<Rightarrow>
                  if m < 1 \<or> m > 12 then False
                  else if y < currentYear then False
                  else if y = currentYear \<and> m < currentMonth then False
                  else True))"

section \<open>JavaScript values\<close>

text \<open>
  The values \<open>JSON.parse\<close> produces and the handler reads: \<open>undefined\<close> (which a read
  of a missing property gives), \<open>null\<close>, booleans, numbers (a double: a finite rational,
  an infinity or \<open>NaN\<close>; the two zeros are not told apart, the handler cannot tell them
  apart either), strings, arrays, and objects as the list of their own properties.
\<close>

datatype jsnum = Finite rat | PosInfinity | NegInfinity | NaN

datatype jsval =
    JUndefined
  | JNull
  | JBool bool
  | JNumber jsnum
  | JString jsstring
  | JArray "jsval list"
  | JObject "(jsstring \<times> jsval) list"

text \<open>\<open>ToBoolean\<close>, which \<open>||\<close> and \<open>? :\<close> apply to their first operand.\<close>

fun truthy :: "jsval \<Rightarrow> bool" where
  "truthy JUndefined = False"
| "truthy JNull = False"
| "truthy (JBool b) = b"
| "truthy (JNumber n) = (n \<noteq> Finite 0 \<and> n \<noteq> NaN)"
| "truthy (JString s) = (s \<noteq> [])"
| "truthy (JArray xs) = True"
| "truthy (JObject ps) = True"

text \<open>
  The property read \<open>v.k\<close>, for the property names the handler reads (\<open>scheme\<close>,
  \<open>brand\<close>, \<open>type\<close>, \<open>prepaid\<close>, \<open>number\<close>, \<open>length\<close>, \<open>luhn\<close>, \<open>country\<close>,
  \<open>bank\<close> and the fields of the last two). On \<open>undefined\<close> and \<open>null\<close> it throws a
  \<open>TypeError\<close>, which is \<open>None\<close> here. An object gives its own property or \<open>undefined\<close>;
  of these names only \<open>length\<close> is found on a prototype, on strings and arrays.
\<close>

fun get_prop :: "jsval \<Rightarrow> jsstring \<Rightarrow> jsval option" where
  "get_prop JUndefined k = None"
| "get_prop JNull k = None"
| "get_prop (JBool b) k = Some JUndefined"
| "get_prop (JNumber n) k = Some JUndefined"
| "get_prop (JString s) k =
     Some (if k = js ''length'' then JNumber (Finite (of_nat (length s))) else JUndefined)"
| "get_prop (JArray xs) k =
     Some (if k = js ''length'' then JNumber (Finite (of_nat (length xs))) else JUndefined)"
| "get_prop (JObject ps) k = Some (case map_of ps k of None \<Rightarrow> JUndefined | Some v \<Rightarrow> v)"

section \<open>lookupBin\<close>

text \<open>
  What the handler's \<open>catch (e)\<close> can receive: an object passed to \<open>reject\<close>, with its
  \<open>error\<close> and its optional \<open>status\<close> and \<open>details\<close>, or a \<open>TypeError\<close>, thrown by
  a property read or by \<open>https.request\<close>, which has none of these properties.
\<close>

datatype failure =
    Rejected jsstring "nat option" "jsstring option"
  | TypeError

text \<open>
  What the outbound request comes to, as \<open>lookupBin\<close> observes it: the response ends
  with a status code and the concatenated body; or the request emits \<open>error\<close>; or the
  response is cut off after its headers, and then neither the \<open>end\<close> of the response
  nor the \<open>error\<close> of the request is emitted.
\<close>

datatype upstream =
    Ended nat jsstring
  | RequestError jsstring
  | Aborted

text \<open>The decimal digits of a number, as a template literal prints a status code.\<close>

fun decimal :: "nat \<Rightarrow> jsstring" where
  "decimal n = (if n < 10 then [0x30 + n] else decimal (n div 10) @ [0x30 + n mod 10])"

declare decimal.simps [simp del]

definition options_path :: "jsstring \<Rightarrow> jsstring" where
  "options_path bin = 0x2F # bin"

text \<open>
  \<open>https.request\<close> throws a \<open>TypeError\<close> when the path has a character outside U+0021
  to U+00FF, and issues no request then.
\<close>

definition valid_request_path :: "jsstring \<Rightarrow> bool" where
  "valid_request_path path = list_all (\<lambda>c. 0x21 \<le> c \<and> c \<le> 0xFF) path"

text \<open>
  \<open>lookupBin\<close> takes \<open>JSON.parse\<close> (\<open>Inl\<close> the message of the error it throws) and the
  network (what becomes of a GET for a path of \<open>lookup.binlist.net\<close>) as parameters. It
  gives the paths of the requests it has issued and what becomes of the promise:
  \<open>Some (Inr v)\<close> resolved, \<open>Some (Inl e)\<close> rejected (an error thrown in the executor
  rejects it), \<open>None\<close> never settled.
\<close>

definition lookupBin ::
  "(jsstring \<Rightarrow> jsstring + jsval) \<Rightarrow> (jsstring \<Rightarrow> upstream) \<Rightarrow> jsstring
     \<Rightarrow> jsstring list \<times> (failure + jsval) option"
where
  "lookupBin JSON_parse net bin =
     (let path = options_path bin in
      if \<not> valid_request_path path then ([], Some (Inl TypeError))
      else
        ([path],
         (case net path of
            Ended statusCode data \<Rightarrow>
              if statusCode = 200 then
                (case JSON_parse data of
                   Inr v \<Rightarrow> Some (Inr v)
                 | Inl e_message \<Rightarrow>
                     Some (Inl (Rejected (js ''Erro ao analisar a resposta da BIN List'') None
                                  (Some e_message))))
              else if statusCode = 404 then
                Some (Inl (Rejected
                             (js ''BIN n'' @ [0xE3] @ js ''o encontrado na base de dados.'')
                             (Some 404) None))
              else
                Some (Inl (Rejected
                             (js ''Erro na consulta '' @ [0xE0] @ js '' BIN List: Status ''
                                @ decimal statusCode)
                             None (Some data)))
          | RequestError e_message \<Rightarrow>
              Some (Inl (Rejected
                           (js ''Erro na requisi'' @ [0xE7, 0xE3]
                              @ js ''o HTTP para a BIN List'')
                           None (Some e_message)))
          | Aborted \<Rightarrow> None)))"

section \<open>The response\<close>

record api_metadata =
  author :: jsstring
  contact :: jsstring
  version :: jsstring

definition API_METADATA :: api_metadata where
  "API_METADATA =
     \<lparr>author = js ''Sam'', contact = js ''t.me/samblackhat'', version = js ''1.0.1-enriched''\<rparr>"

record request_echo =
  bin :: jsstring
  cardNumber :: jsstring
  expiryMonth :: jsstring
  expiryYear :: jsstring

text \<open>\<open>validation\<close> starts as \<open>{}\<close>: a field is \<open>None\<close> until it is assigned.\<close>

record validation_result =
  luhn_valid :: "bool option"
  expiry_valid :: "bool option"

record number_info =
  length_field :: jsval
  luhn_check_status :: jsval

record coordinates_info =
  latitude :: jsval
  longitude :: jsval

record country_info =
  country_name :: jsval
  alpha2 :: jsval
  numeric :: jsval
  currency :: jsval
  emoji :: jsval
  coordinates :: coordinates_info

record bank_info =
  bank_name :: jsval
  url :: jsval
  phone_sac :: jsval
  city :: jsval

record card_information =
  scheme :: jsval
  brand :: jsval
  type_field :: jsval
  prepaid :: jsval
  number_details :: number_info
  country :: country_info
  bank :: bank_info

record response =
  metadata :: api_metadata
  request :: request_echo
  validation :: validation_result
  card_info :: "card_information option"
  status :: jsstring
  message :: jsstring

record usage_hint =
  hint_status :: jsstring
  hint_message :: jsstring
  hint_example :: jsstring

datatype body = Enriched response | Usage usage_hint

text \<open>
  What the handler writes for one request: the status code and the body, with the paths
  of the outbound requests it has issued, in order.
\<close>

record reply =
  statusCode :: nat
  body :: body
  outbound :: "jsstring list"

text \<open>
  What becomes of one call of the handler. It writes a reply; or \<open>url.parse\<close> throws
  (or finds no pathname, and \<open>split\<close> throws) before anything is written, outside any
  \<open>try\<close>, so that the promise of the \<open>async\<close> handler is rejected with nobody to
  catch it; or the handler waits for ever on a lookup that is never settled, the
  requests it has issued being kept.
\<close>

datatype outcome =
    Answered reply
  | UrlParseThrew
  | NeverSettled "jsstring list"

definition NA :: jsval where
  "NA = JString (js ''N/A'')"

definition Sim :: jsval where
  "Sim = JString (js ''Sim'')"

definition Nao :: jsval where
  "Nao = JString (js ''N'' @ [0xE3] @ js ''o'')"

text \<open>\<open>binData.k || 'N/A'\<close>\<close>

definition or_NA :: "jsval \<Rightarrow> jsstring \<Rightarrow> jsval option" where
  "or_NA binData k = do { v \<leftarrow> get_prop binData k; Some (if truthy v then v else NA) }"

text \<open>\<open>binData.p ? binData.p.k : 'N/A'\<close>\<close>

definition sub_or_NA :: "jsval \<Rightarrow> jsstring \<Rightarrow> jsstring \<Rightarrow> jsval option" where
  "sub_or_NA binData p k =
     do { c \<leftarrow> get_prop binData p;
          if truthy c then do { q \<leftarrow> get_prop binData p; get_prop q k } else Some NA }"

text \<open>
  The object literal assigned to \<open>response.card_info\<close>, its properties evaluated in the
  order they are written; \<open>None\<close> when a property read throws.
\<close>

definition card_info_of :: "jsval \<Rightarrow> card_information option" where
  "card_info_of binData =
     do { scheme_v \<leftarrow> or_NA binData (js ''scheme'');
          brand_v \<leftarrow> or_NA binData (js ''brand'');
          type_v \<leftarrow> or_NA binData (js ''type'');
          prepaid_v \<leftarrow> get_prop binData (js ''prepaid'');
          length_v \<leftarrow> sub_or_NA binData (js ''number'') (js ''length'');
          number_v \<leftarrow> get_prop binData (js ''number'');
          luhn_v \<leftarrow> (if truthy number_v
                     then do { n \<leftarrow> get_prop binData (js ''number'');
                               l \<leftarrow> get_prop n (js ''luhn'');
                               Some (if truthy l then Sim else Nao) }
                     else Some NA);
          name_v \<leftarrow> sub_or_NA binData (js ''country'') (js ''name'');
          alpha2_v \<leftarrow> sub_or_NA binData (js ''country'') (js ''alpha2'');
          numeric_v \<leftarrow> sub_or_NA binData (js ''country'') (js ''numeric'');
          currency_v \<leftarrow> sub_or_NA binData (js ''country'') (js ''currency'');
          emoji_v \<leftarrow> sub_or_NA binData (js ''country'') (js ''emoji'');
          latitude_v \<leftarrow> sub_or_NA binData (js ''country'') (js ''latitude'');
          longitude_v \<leftarrow> sub_or_NA binData (js ''country'') (js ''longitude'');
          bank_name_v \<leftarrow> sub_or_NA binData (js ''bank'') (js ''name'');
          url_v \<leftarrow> sub_or_NA binData (js ''bank'') (js ''url'');
          phone_v \<leftarrow> sub_or_NA binData (js ''bank'') (js ''phone'');
          city_v \<leftarrow> sub_or_NA binData (js ''bank'') (js ''city'');
          Some \<lparr>scheme = scheme_v, brand = brand_v, type_field = type_v,
                prepaid = (if prepaid_v = JBool True then Sim else Nao),
                number_details = \<lparr>length_field = length_v, luhn_check_status = luhn_v\<rparr>,
                country = \<lparr>country_name = name_v, alpha2 = alpha2_v, numeric = numeric_v,
                           currency = currency_v, emoji = emoji_v,
                           coordinates = \<lparr>latitude = latitude_v, longitude = longitude_v\<rparr>\<rparr>,
                bank = \<lparr>bank_name = bank_name_v, url = url_v, phone_sac = phone_v,
                        city = city_v\<rparr>\<rparr> }"

section \<open>The request handler\<close>

text \<open>A request, as the handler reads it: \<open>req.method\<close> and \<open>req.url\<close>.\<close>

record incoming =
  req_method :: jsstring
  req_url :: jsstring

text \<open>\<open>pathname.split('/')\<close>\<close>

fun split_slash :: "jsstring \<Rightarrow> jsstring list" where
  "split_slash [] = [[]]"
| "split_slash (c # cs) =
     (if c = 0x2F then [] # split_slash cs
      else (case split_slash cs of [] \<Rightarrow> [[c]] | w # ws \<Rightarrow> (c # w) # ws))"

text \<open>\<open>pathname.split('/').filter(segment => segment.length > 0)\<close>\<close>

definition pathSegments :: "jsstring \<Rightarrow> jsstring list" where
  "pathSegments pathname = filter (\<lambda>segment. length segment > 0) (split_slash pathname)"

text \<open>The \<open>else\<close> branch of the handler.\<close>

definition not_found :: reply where
  "not_found =
     \<lparr>statusCode = 404,
      body = Usage
        \<lparr>hint_status = js ''error'',
         hint_message = js ''Endpoint n'' @ [0xE3] @ js ''o encontrado. Use o formato: /cardinfo/:bin/:card_number/:expiry_month/:expiry_year'',
         hint_example = js ''/cardinfo/457173/4571736000000000/12/28''\<rparr>,
      outbound = []\<rparr>"

text \<open>
  The \<open>catch (e)\<close> block: \<open>e.error || ...\<close> and \<open>e.status || 500\<close>. What it writes to
  the console is left out.
\<close>

fun catch_message :: "failure \<Rightarrow> jsstring" where
  "catch_message (Rejected e_error e_status e_details) =
     (if e_error \<noteq> [] then e_error
      else js ''Erro interno do servidor durante a consulta externa.'')"
| "catch_message TypeError = js ''Erro interno do servidor durante a consulta externa.''"

fun catch_status :: "failure \<Rightarrow> nat" where
  "catch_status (Rejected e_error (Some s) e_details) = (if s \<noteq> 0 then s else 500)"
| "catch_status (Rejected e_error None e_details) = 500"
| "catch_status TypeError = 500"

definition catch_block :: "response \<Rightarrow> jsstring list \<Rightarrow> failure \<Rightarrow> reply" where
  "catch_block response sent e =
     \<lparr>statusCode = catch_status e,
      body = Enriched (response\<lparr>message := catch_message e\<rparr>),
      outbound = sent\<rparr>"

text \<open>
  The handler, with \<open>url.parse\<close>, \<open>JSON.parse\<close>, the network and the clock as
  parameters. \<open>url_parse\<close> gives the \<open>pathname\<close> that \<open>url.parse(req.url, true)\<close>
  finds, \<open>None\<close> when it throws or finds none. The response object is mutated in place
  in the source; here each assignment is a record update of the previous value.
\<close>

definition server ::
  "(jsstring \<Rightarrow> jsstring option) \<Rightarrow> (jsstring \<Rightarrow> jsstring + jsval) \<Rightarrow> (jsstring \<Rightarrow> upstream)
     \<Rightarrow> date \<Rightarrow> incoming \<Rightarrow> outcome"
where
  "server url_parse JSON_parse net now req =
     (case url_parse (req_url req) of
        None \<Rightarrow> UrlParseThrew
      | Some pathname \<Rightarrow>
     (let segs = pathSegments pathname in
      if req_method req = js ''GET''
         \<and> (case segs of [] \<Rightarrow> False | s # _ \<Rightarrow> s = js ''cardinfo'')
         \<and> length segs = 5
      then
        (let bin_v = segs ! 1; cardNumber_v = segs ! 2;
             expiryMonth_v = segs ! 3; expiryYear_v = segs ! 4;
             response =
               \<lparr>metadata = API_METADATA,
                request = \<lparr>bin = bin_v, cardNumber = cardNumber_v,
                           expiryMonth = expiryMonth_v, expiryYear = expiryYear_v\<rparr>,
                validation = \<lparr>luhn_valid = None, expiry_valid = None\<rparr>,
                card_info = None,
                status = js ''error'',
                message = js ''Processamento iniciado.''\<rparr>;
             response = response\<lparr>validation :=
               (validation response)\<lparr>luhn_valid := Some (luhnCheck cardNumber_v)\<rparr>\<rparr>;
             response = response\<lparr>validation :=
               (validation response)\<lparr>expiry_valid :=
                  Some (isExpiryValid now expiryMonth_v expiryYear_v)\<rparr>\<rparr>
         in
           if luhn_valid (validation response) \<noteq> Some True then
             Answered
               \<lparr>statusCode = 400,
                body = Enriched (response\<lparr>message :=
                  js ''Falha na valida'' @ [0xE7, 0xE3] @ js ''o estrutural do n'' @ [0xFA]
                    @ js ''mero do cart'' @ [0xE3] @ js ''o (Algoritmo de Luhn).''\<rparr>),
                outbound = []\<rparr>
           else if expiry_valid (validation response) \<noteq> Some True then
             Answered
               \<lparr>statusCode = 400,
                body = Enriched (response\<lparr>message :=
                  js ''Falha na valida'' @ [0xE7, 0xE3] @ js ''o da data de expira''
                    @ [0xE7, 0xE3] @ js ''o (cart'' @ [0xE3] @ js ''o expirado ou data inv''
                    @ [0xE1] @ js ''lida).''\<rparr>),
                outbound = []\<rparr>
           else
             (case lookupBin JSON_parse net bin_v of
                (sent, None) \<Rightarrow> NeverSettled sent
              | (sent, Some (Inr binData)) \<Rightarrow>
                  (let response = response\<lparr>status := js ''success''\<rparr>;
                       response = response\<lparr>message :=
                         js ''Valida'' @ [0xE7, 0xE3] @ js ''o e consulta conclu'' @ [0xED]
                           @ js ''das com sucesso.''\<rparr>
                   in case card_info_of binData of
                        Some info \<Rightarrow>
                          Answered
                            \<lparr>statusCode = 200,
                             body = Enriched (response\<lparr>card_info := Some info\<rparr>),
                             outbound = sent\<rparr>
                      | None \<Rightarrow> Answered (catch_block response sent TypeError))
              | (sent, Some (Inl e)) \<Rightarrow> Answered (catch_block response sent e)))
      else Answered not_found))"

section \<open>The specification's words\<close>

text \<open>
  The mod-10 double-every-second-digit sum of a digit string, by position: counting from
  the right and from 0, the digits at odd positions are doubled, 9 taken off a doubled
  digit above 9, and everything is added up.
\<close>

definition luhn_term :: "nat \<Rightarrow> int \<Rightarrow> int" where
  "luhn_term i d = (if odd i then (if d * 2 > 9 then d * 2 - 9 else d * 2) else d)"

definition checksum_sum :: "jsstring \<Rightarrow> int" where
  "checksum_sum s = (\<Sum>i<length s. luhn_term i (digit_value (s ! (length s - Suc i))))"

text \<open>
  The checksum as the specification words it: strip spaces and hyphens, say no when a
  character that is left is not a digit, otherwise test the sum.
\<close>

definition checksum_spec :: "jsstring \<Rightarrow> bool" where
  "checksum_spec s =
     (let t = filter (\<lambda>c. c \<noteq> 0x20 \<and> c \<noteq> 0x2D) s
      in if list_ex (\<lambda>c. \<not> is_digit c) t then False else checksum_sum t mod 10 = 0)"

text \<open>
  The same with two changes: every character of the class \<open>\s\<close> is stripped, and
  a string with nothing left is refused.
\<close>

definition checksum_amended :: "jsstring \<Rightarrow> bool" where
  "checksum_amended s =
     (let t = filter (\<lambda>c. \<not> is_space c \<and> c \<noteq> 0x2D) s
      in if t = [] \<or> list_ex (\<lambda>c. \<not> is_digit c) t then False
         else checksum_sum t mod 10 = 0)"

text \<open>
  The value of a run of decimal digits, by position.
\<close>

definition decimal_value :: "jsstring \<Rightarrow> int" where
  "decimal_value ds = (\<Sum>i<length ds. digit_value (ds ! i) * 10 ^ (length ds - Suc i))"

text \<open>
  The expiry rule as the specification words it. A string parses as an integer when it
  is a run of decimal digits, a sign before it allowed; a year string has two digits
  when it is two characters, both digits; the date is invalid when the month or the
  year does not parse, the month is outside 1 to 12, the resolved year is before the
  current year, or it is the current year and the month is before the current month.
\<close>

definition integer_spec :: "jsstring \<Rightarrow> int option" where
  "integer_spec s =
     (let neg = (case s of [] \<Rightarrow> False | c # r \<Rightarrow> c = hyphen);
          ds = (case s of [] \<Rightarrow> [] | c # r \<Rightarrow> if c = 0x2B \<or> c = hyphen then r else s)
      in if ds \<noteq> [] \<and> list_all is_digit ds
         then Some (if neg then - decimal_value ds else decimal_value ds)
         else None)"

definition has_two_digits :: "jsstring \<Rightarrow> bool" where
  "has_two_digits year = (length year = 2 \<and> list_all is_digit year)"

definition expiry_spec :: "date \<Rightarrow> jsstring \<Rightarrow> jsstring \<Rightarrow> bool" where
  "expiry_spec now month year =
     (case integer_spec month of
        None \<Rightarrow> False
      | Some m \<Rightarrow>
          (case integer_spec year of
             None \<Rightarrow> False
           | Some y \<Rightarrow>
               (let resolved = (if has_two_digits year then 2000 + y else y)
                in \<not> (m < 1 \<or> 12 < m \<or> resolved < getFullYear now
                       \<or> (resolved = getFullYear now \<and> m < getMonth now + 1)))))"

text \<open>
  The integer that \<open>parseInt\<close> reads at the start of a string, stated on the shape of
  the string: white space, then a sign or none, then a run of one digit at least that
  cannot be made longer, then anything; the value is that of the run, negated after a
  minus sign.
\<close>

definition reads_integer :: "jsstring \<Rightarrow> int \<Rightarrow> bool" where
  "reads_integer s v =
     (\<exists>ws sg ds rest.
        s = ws @ sg @ ds @ rest
        \<and> list_all is_space ws
        \<and> (sg = [] \<or> sg = [0x2B] \<or> sg = [hyphen])
        \<and> ds \<noteq> [] \<and> list_all is_digit ds
        \<and> (case rest of [] \<Rightarrow> True | c # r \<Rightarrow> \<not> is_digit c)
        \<and> v = (if sg = [hyphen] then - decimal_value ds else decimal_value ds))"

text \<open>
  The property read where it cannot throw: \<open>undefined\<close> stands for the thrown error.
\<close>

definition read_prop :: "jsval \<Rightarrow> jsstring \<Rightarrow> jsval" where
  "read_prop v k = (case get_prop v k of None \<Rightarrow> JUndefined | Some x \<Rightarrow> x)"

text \<open>
  The enriched response of a reply, and its \<open>card_info\<close>, when it has them; the
  status, the response and the \<open>card_info\<close> that an outcome holds when a reply was
  written, and the requests issued in any outcome.
\<close>

definition reply_response :: "reply \<Rightarrow> response option" where
  "reply_response r = (case body r of Enriched resp \<Rightarrow> Some resp | Usage h \<Rightarrow> None)"

definition reply_card_info :: "reply \<Rightarrow> card_information option" where
  "reply_card_info r = (case body r of Enriched resp \<Rightarrow> card_info resp | Usage h \<Rightarrow> None)"

definition answer_status :: "outcome \<Rightarrow> nat option" where
  "answer_status out = (case out of Answered r \<Rightarrow> Some (statusCode r) | _ \<Rightarrow> None)"

definition answer_response :: "outcome \<Rightarrow> response option" where
  "answer_response out = (case out of Answered r \<Rightarrow> reply_response r | _ \<Rightarrow> None)"

definition answer_card_info :: "outcome \<Rightarrow> card_information option" where
  "answer_card_info out = (case out of Answered r \<Rightarrow> reply_card_info r | _ \<Rightarrow> None)"

definition requests_issued :: "outcome \<Rightarrow> jsstring list" where
  "requests_issued out =
     (case out of Answered r \<Rightarrow> outbound r | UrlParseThrew \<Rightarrow> []
      | NeverSettled sent \<Rightarrow> sent)"

text \<open>
  What the object literal of \<open>card_info\<close> holds for a field read from the reply itself
  (\<open>binData.k || 'N/A'\<close>) and for a field read from one of its sub-objects
  (\<open>binData.p ? binData.p.k : 'N/A'\<close>), when no read throws.
\<close>

definition top_field :: "jsval \<Rightarrow> jsstring \<Rightarrow> jsval" where
  "top_field d k = (if truthy (read_prop d k) then read_prop d k else NA)"

definition nested_field :: "jsval \<Rightarrow> jsstring \<Rightarrow> jsstring \<Rightarrow> jsval" where
  "nested_field d p k =
     (if truthy (read_prop d p) then read_prop (read_prop d p) k else NA)"

text \<open>
  A second reading of the year rule: the offset 2000 applies only to a year string
  that is exactly two digits.
\<close>

definition resolved_year_strict :: "jsstring \<Rightarrow> int option" where
  "resolved_year_strict year =
     (case parseInt year of
        None \<Rightarrow> None
      | Some y \<Rightarrow> Some (if length year = 2 \<and> list_all is_digit year then 2000 + y else y))"

definition isExpiryValid_strict :: "date \<Rightarrow> jsstring \<Rightarrow> jsstring \<Rightarrow> bool" where
  "isExpiryValid_strict now month year =
     (case parseInt month of
        None \<Rightarrow> False
      | Some m \<Rightarrow>
          (case resolved_year_strict year of
             None \<Rightarrow> False
           | Some y \<Rightarrow>
               1 \<le> m \<and> m \<le> 12 \<and> \<not> y < getFullYear now
               \<and> \<not> (y = getFullYear now \<and> m < getMonth now + 1)))"

section \<open>Example requests and upstream replies\<close>

definition clock_2025_11 :: date where
  "clock_2025_11 = \<lparr>getFullYear = 2025, getMonth = 10\<rparr>"

definition clock_2005_01 :: date where
  "clock_2005_01 = \<lparr>getFullYear = 2005, getMonth = 0\<rparr>"

definition example_request :: incoming where
  "example_request =
     \<lparr>req_method = js ''GET'', req_url = js ''/cardinfo/457173/4571736000000000/12/28''\<rparr>"

definition bad_luhn_request :: incoming where
  "bad_luhn_request =
     \<lparr>req_method = js ''GET'', req_url = js ''/cardinfo/457173/4571736000000001/12/28''\<rparr>"

definition post_request :: incoming where
  "post_request =
     \<lparr>req_method = js ''POST'', req_url = js ''/cardinfo/457173/4571736000000000/12/28''\<rparr>"

text \<open>
  A request in absolute form whose host \<open>url.parse\<close> refuses, and \<open>url.parse\<close> on the
  URLs of the examples: it throws on that one; the others are paths without a query,
  and the pathname it finds is the URL itself.
\<close>

definition bad_host_url :: jsstring where
  "bad_host_url = js ''http://xn--/cardinfo/457173/4571736000000000/12/28''"

definition bad_host_post :: incoming where
  "bad_host_post = \<lparr>req_method = js ''POST'', req_url = bad_host_url\<rparr>"

definition url_parse_examples :: "jsstring \<Rightarrow> jsstring option" where
  "url_parse_examples u = (if u = bad_host_url then None else Some u)"

text \<open>The path \<open>/cardinfo/{bin}/{cardNumber}/{expiryMonth}/{expiryYear}\<close>.\<close>

definition card_path :: "jsstring \<Rightarrow> jsstring \<Rightarrow> jsstring \<Rightarrow> jsstring \<Rightarrow> jsstring" where
  "card_path b c m y = js ''/cardinfo/'' @ b @ 0x2F # c @ 0x2F # m @ 0x2F # y"

text \<open>
  Two upstream bodies, \<open>null\<close> and \<open>{"country":{"name":"Denmark"}}\<close>, and what
  \<open>JSON.parse\<close> makes of them.
\<close>

definition null_body :: jsstring where
  "null_body = js ''null''"

definition denmark_body :: jsstring where
  "denmark_body =
     [0x7B, 0x22] @ js ''country'' @ [0x22, 0x3A, 0x7B, 0x22] @ js ''name''
       @ [0x22, 0x3A, 0x22] @ js ''Denmark'' @ [0x22, 0x7D, 0x7D]"

definition denmark :: jsval where
  "denmark = JObject [(js ''country'', JObject [(js ''name'', JString (js ''Denmark''))])]"

definition parse_examples :: "jsstring \<Rightarrow> jsstring + jsval" where
  "parse_examples d =
     (if d = null_body then Inr JNull
      else if d = denmark_body then Inr denmark
      else Inl (js ''Unexpected token''))"

definition replies_null :: "jsstring \<Rightarrow> upstream" where
  "replies_null p = Ended 200 null_body"

definition replies_denmark :: "jsstring \<Rightarrow> upstream" where
  "replies_denmark p = Ended 200 denmark_body"

definition network_down :: "jsstring \<Rightarrow> upstream" where
  "network_down p = RequestError (js ''connect ECONNREFUSED'')"

definition cut_off :: "jsstring \<Rightarrow> upstream" where
  "cut_off p = Aborted"

section \<open>The checksum\<close>

lemma luhn_term_Suc_Suc: "luhn_term (Suc (Suc i)) d = luhn_term i d"
  by (simp add: luhn_term_def)

text \<open>
  The loop adds to its accumulator the terms of the positional sum, the parity of the
  positions shifted by one when it starts with \<open>double\<close> set.
\<close>

lemma luhn_loop_sum:
  "luhn_loop cs acc dbl =
     acc + (\<Sum>i<length cs. luhn_term (if dbl then Suc i else i) (digit_value (cs ! i)))"
proof (induction cs arbitrary: acc dbl)
  case Nil
  show ?case by simp
next
  case (Cons c cs)
  show ?case
  proof (cases dbl)
    case True
    then show ?thesis
      by (simp add: Cons.IH sum.lessThan_Suc_shift luhn_term_Suc_Suc Let_def
            del: sum.lessThan_Suc) (simp add: luhn_term_def)
  next
    case False
    then show ?thesis
      by (simp add: Cons.IH sum.lessThan_Suc_shift Let_def del: sum.lessThan_Suc)
         (simp add: luhn_term_def)
  qed
qed

lemma luhn_loop_rev: "luhn_loop (rev s) 0 False = checksum_sum s"
proof -
  have "(\<Sum>i<length s. luhn_term i (digit_value (rev s ! i))) =
        (\<Sum>i<length s. luhn_term i (digit_value (s ! (length s - Suc i))))"
    by (rule sum.cong) (simp_all add: rev_nth)
  then show ?thesis
    by (simp add: luhn_loop_sum checksum_sum_def)
qed

lemma luhnCheck_eq:
  "luhnCheck s =
     (all_digits (cleanedCardNumber s) \<and> checksum_sum (cleanedCardNumber s) mod 10 = 0)"
  by (simp add: luhnCheck_def Let_def luhn_loop_rev)

lemma digit_not_stripped: "is_digit c \<Longrightarrow> \<not> (is_space c \<or> c = hyphen)"
  by (auto simp: is_digit_def is_space_def hyphen_def)

lemma cleaned_digits: "list_all is_digit s \<Longrightarrow> cleanedCardNumber s = s"
  by (induction s) (auto simp: cleanedCardNumber_def dest: digit_not_stripped)

lemma all_digits_list_ex:
  "all_digits t = (\<not> (t = [] \<or> list_ex (\<lambda>c. \<not> is_digit c) t))"
  by (auto simp: all_digits_def list_all_iff list_ex_iff)

text \<open>
  C1, as stated, fails at the empty string: it consists only of digits and its sum, 0,
  is divisible by 10, but \<open>/^\d+$/\<close> asks for one digit at least and \<open>luhnCheck\<close>
  returns false.
\<close>

theorem luhnCheck_empty_digit_string:
  "list_all is_digit [] \<and> checksum_sum [] mod 10 = 0 \<and> luhnCheck [] = False"
  by (simp add: checksum_sum_def luhnCheck_def cleanedCardNumber_def all_digits_def)

text \<open>
  C1, amended: for every non-empty string \<open>s\<close> consisting only of digits, \<open>luhnCheck s\<close>
  is true if and only if the mod-10 double-every-second-digit sum of \<open>s\<close> is divisible
  by 10; it is true for 4571736000000000 and false for 4571736000000001.
\<close>

theorem luhnCheck_digit_strings:
  "(s \<noteq> [] \<longrightarrow> list_all is_digit s \<longrightarrow> luhnCheck s = (checksum_sum s mod 10 = 0))
   \<and> luhnCheck (js ''4571736000000000'') = True
   \<and> luhnCheck (js ''4571736000000001'') = False"
proof (intro conjI impI)
  assume "s \<noteq> []" "list_all is_digit s"
  then show "luhnCheck s = (checksum_sum s mod 10 = 0)"
    by (simp add: luhnCheck_eq cleaned_digits all_digits_def)
next
  show "luhnCheck (js ''4571736000000000'') = True" by code_simp
next
  show "luhnCheck (js ''4571736000000001'') = False" by code_simp
qed

theorem luhnCheck_digit_strings_witness:
  "luhnCheck (js ''79927398713'') \<and> checksum_sum (js ''79927398713'') mod 10 = 0"
proof -
  have ne: "js ''79927398713'' \<noteq> []" by (simp add: js_def)
  have dg: "list_all is_digit (js ''79927398713'')" by code_simp
  have cs: "checksum_sum (js ''79927398713'') mod 10 = 0" by code_simp
  from luhnCheck_digit_strings [of "js ''79927398713''"] ne dg cs show ?thesis by simp
qed

text \<open>
  C2, as stated, fails twice. The empty string has no non-digit character and the sum 0,
  so the stated algorithm accepts it, and \<open>luhnCheck\<close> does not. A tab is neither a
  space nor a hyphen, so the stated algorithm refuses the digit 0 followed by a tab,
  and \<open>luhnCheck\<close>, which strips the whole class \<open>\s\<close>, accepts it.
\<close>

theorem luhnCheck_not_checksum_spec:
  "luhnCheck [] \<noteq> checksum_spec []
   \<and> luhnCheck (js ''0'' @ [0x09]) \<noteq> checksum_spec (js ''0'' @ [0x09])"
  by code_simp

text \<open>
  C2, amended: \<open>luhnCheck\<close> strips every white-space character (the class \<open>\s\<close>) and
  every hyphen; when nothing is left or a character that is left is not a digit it
  returns false; otherwise it returns true exactly when the sum, with every second digit
  from the right doubled and 9 taken off a doubled digit above 9, is divisible by 10.
  On an input whose white space is spaces only and that keeps a character after
  stripping, this is the algorithm as the specification words it.
\<close>

theorem luhnCheck_algorithm:
  "luhnCheck s = checksum_amended s
   \<and> (cleanedCardNumber s \<noteq> [] \<longrightarrow> list_all (\<lambda>c. is_space c \<longrightarrow> c = 0x20) s
        \<longrightarrow> luhnCheck s = checksum_spec s)"
proof (intro conjI impI)
  show a: "luhnCheck s = checksum_amended s"
    by (simp add: luhnCheck_eq checksum_amended_def cleanedCardNumber_def hyphen_def
          Let_def all_digits_list_ex)
  assume ne: "cleanedCardNumber s \<noteq> []"
    and sp: "list_all (\<lambda>c. is_space c \<longrightarrow> c = 0x20) s"
  have "filter (\<lambda>c. c \<noteq> 0x20 \<and> c \<noteq> 0x2D) s = filter (\<lambda>c. \<not> is_space c \<and> c \<noteq> 0x2D) s"
  proof (rule filter_cong [OF refl])
    fix c assume "c \<in> set s"
    with sp have "is_space c \<longrightarrow> c = 0x20" by (simp add: list_all_iff)
    moreover have "is_space 0x20" by (simp add: is_space_def)
    ultimately show "(c \<noteq> 0x20 \<and> c \<noteq> 0x2D) = (\<not> is_space c \<and> c \<noteq> 0x2D)" by auto
  qed
  moreover from ne have "filter (\<lambda>c. \<not> is_space c \<and> c \<noteq> 0x2D) s \<noteq> []"
    by (simp add: cleanedCardNumber_def hyphen_def)
  ultimately have "checksum_spec s = checksum_amended s"
    by (simp add: checksum_spec_def checksum_amended_def Let_def)
  with a show "luhnCheck s = checksum_spec s" by simp
qed

theorem luhnCheck_algorithm_witness:
  "luhnCheck (js ''4571 7360-0000 0000'') \<and> checksum_amended (js ''4571 7360-0000 0000'')
   \<and> checksum_spec (js ''4571 7360-0000 0000'')"
proof -
  have ne: "cleanedCardNumber (js ''4571 7360-0000 0000'') \<noteq> []" by code_simp
  have sp: "list_all (\<lambda>c. is_space c \<longrightarrow> c = 0x20) (js ''4571 7360-0000 0000'')"
    by code_simp
  have ok: "luhnCheck (js ''4571 7360-0000 0000'')" by code_simp
  from luhnCheck_algorithm [of "js ''4571 7360-0000 0000''"] ne sp ok show ?thesis by simp
qed

text \<open>
  C9: \<open>luhnCheck\<close> returns false for the empty string and for every input that is empty
  once its spaces and hyphens are stripped (and, more generally, once all that
  \<open>luhnCheck\<close> strips is stripped), a string of spaces and hyphens for one.
\<close>

theorem luhnCheck_blank:
  "(filter (\<lambda>c. c \<noteq> 0x20 \<and> c \<noteq> hyphen) s = [] \<longrightarrow> luhnCheck s = False)
   \<and> (cleanedCardNumber s = [] \<longrightarrow> luhnCheck s = False)
   \<and> luhnCheck [] = False"
proof (intro conjI impI)
  assume a: "filter (\<lambda>c. c \<noteq> 0x20 \<and> c \<noteq> hyphen) s = []"
  have "cleanedCardNumber s = []"
    unfolding cleanedCardNumber_def filter_empty_conv
  proof
    fix c assume "c \<in> set s"
    with a have "c = 0x20 \<or> c = hyphen" by (auto simp: filter_empty_conv)
    then show "\<not> \<not> (is_space c \<or> c = hyphen)" by (auto simp: is_space_def)
  qed
  then show "luhnCheck s = False" by (simp add: luhnCheck_eq all_digits_def)
next
  assume "cleanedCardNumber s = []"
  then show "luhnCheck s = False" by (simp add: luhnCheck_eq all_digits_def)
next
  show "luhnCheck [] = False" by (simp add: luhnCheck_eq all_digits_def cleanedCardNumber_def)
qed

theorem luhnCheck_blank_witness:
  "filter (\<lambda>c. c \<noteq> 0x20 \<and> c \<noteq> hyphen) (js '' - - '') = []
   \<and> luhnCheck (js '' - - '') = False"
proof -
  have e: "filter (\<lambda>c. c \<noteq> 0x20 \<and> c \<noteq> hyphen) (js '' - - '') = []" by code_simp
  from luhnCheck_blank [of "js '' - - ''"] e show ?thesis by simp
qed

section \<open>The expiry date\<close>

lemma digit_value_range: "is_digit c \<Longrightarrow> 0 \<le> digit_value c \<and> digit_value c \<le> 9"
  by (auto simp: is_digit_def digit_value_def)

lemma digit_not_sign: "is_digit c \<Longrightarrow> c \<noteq> 0x2B \<and> c \<noteq> hyphen \<and> \<not> is_space c"
  by (auto simp: is_digit_def hyphen_def is_space_def)

lemma decimal_value_Cons:
  "decimal_value (c # cs) = digit_value c * 10 ^ length cs + decimal_value cs"
  by (simp add: decimal_value_def sum.lessThan_Suc_shift del: sum.lessThan_Suc)

text \<open>The loop of \<open>parseInt\<close> over a run of digits computes its positional value.\<close>

lemma digits_value_decimal_value:
  "digits_value ds acc = acc * 10 ^ length ds + decimal_value ds"
proof (induction ds arbitrary: acc)
  case Nil
  show ?case by (simp add: decimal_value_def)
next
  case (Cons c cs)
  show ?case
    by (simp add: Cons.IH decimal_value_Cons algebra_simps)
qed

lemma parseInt_imp_reads:
  assumes "parseInt s = Some v"
  shows "reads_integer s v"
proof -
  define t where "t = dropWhile is_space s"
  define sg where
    "sg = (case t of [] \<Rightarrow> [] | c # r \<Rightarrow> if c = 0x2B \<or> c = hyphen then [c] else [])"
  define u where
    "u = (case t of [] \<Rightarrow> [] | c # r \<Rightarrow> if c = 0x2B \<or> c = hyphen then r else t)"
  define neg where "neg = (case t of [] \<Rightarrow> False | c # r \<Rightarrow> c = hyphen)"
  define ds where "ds = takeWhile is_digit u"
  define rest where "rest = dropWhile is_digit u"
  have tu: "t = sg @ u"
    by (cases t) (auto simp: sg_def u_def)
  have s: "s = takeWhile is_space s @ sg @ ds @ rest"
    using tu by (simp add: ds_def rest_def t_def [symmetric])
       (metis t_def takeWhile_dropWhile_id)
  have ws: "list_all is_space (takeWhile is_space s)"
    by (auto simp: list_all_iff dest: set_takeWhileD)
  have sgc: "sg = [] \<or> sg = [0x2B] \<or> sg = [hyphen]"
    by (cases t) (auto simp: sg_def)
  have ng: "neg = (sg = [hyphen])"
    by (cases t) (auto simp: sg_def neg_def hyphen_def)
  have p: "parseInt s = (if ds = [] then None
                         else Some (if neg then - digits_value ds 0 else digits_value ds 0))"
    unfolding parseInt_def Let_def ds_def u_def neg_def t_def by (rule refl)
  with assms have ne: "ds \<noteq> []"
    and v: "v = (if neg then - digits_value ds 0 else digits_value ds 0)"
    by (auto split: if_splits)
  have dg: "list_all is_digit ds"
    by (auto simp: ds_def list_all_iff dest: set_takeWhileD)
  have r: "case rest of [] \<Rightarrow> True | c # r \<Rightarrow> \<not> is_digit c"
  proof (cases rest)
    case Nil
    then show ?thesis by simp
  next
    case (Cons c r)
    then have "dropWhile is_digit u \<noteq> []" by (simp add: rest_def)
    from hd_dropWhile [OF this] Cons show ?thesis by (simp add: rest_def)
  qed
  from v ng have "v = (if sg = [hyphen] then - decimal_value ds else decimal_value ds)"
    by (simp add: digits_value_decimal_value)
  with s ws sgc ne dg r show ?thesis
    unfolding reads_integer_def by blast
qed

lemma reads_imp_parseInt:
  assumes "reads_integer s v"
  shows "parseInt s = Some v"
proof -
  from assms obtain ws sg ds rest where s: "s = ws @ sg @ ds @ rest"
    and ws: "list_all is_space ws"
    and sg: "sg = [] \<or> sg = [0x2B] \<or> sg = [hyphen]"
    and ne: "ds \<noteq> []" and dg: "list_all is_digit ds"
    and r: "case rest of [] \<Rightarrow> True | c # r \<Rightarrow> \<not> is_digit c"
    and v: "v = (if sg = [hyphen] then - decimal_value ds else decimal_value ds)"
    unfolding reads_integer_def by blast
  from ne dg obtain d ds' where d: "ds = d # ds'" "is_digit d"
    by (cases ds) auto
  from d(2) have dn: "d \<noteq> 0x2B" "d \<noteq> hyphen" "\<not> is_space d"
    using digit_not_sign by auto
  have sp: "\<not> is_space 0x2B" "\<not> is_space hyphen" "hyphen \<noteq> 0x2B"
    by (simp_all add: is_space_def hyphen_def)
  have tw: "takeWhile is_digit (ds @ rest) = ds"
  proof -
    have "takeWhile is_digit rest = []"
      using r by (cases rest) simp_all
    moreover have "takeWhile is_digit (ds @ rest) = ds @ takeWhile is_digit rest"
      using dg by (intro takeWhile_append2) (simp add: list_all_iff)
    ultimately show ?thesis by simp
  qed
  have "dropWhile is_space s = dropWhile is_space (sg @ ds @ rest)"
    unfolding s using ws by (intro dropWhile_append2) (simp add: list_all_iff)
  also have "\<dots> = sg @ ds @ rest"
    using sg d dn sp by auto
  finally have t: "dropWhile is_space s = sg @ ds @ rest" .
  from sg show ?thesis
  proof (elim disjE)
    assume "sg = []"
    with t d dn tw [unfolded d(1)] v ne show ?thesis
      by (simp add: parseInt_def Let_def digits_value_decimal_value sp)
  next
    assume "sg = [0x2B]"
    with t tw v ne sp show ?thesis
      by (simp add: parseInt_def Let_def digits_value_decimal_value)
  next
    assume "sg = [hyphen]"
    with t tw v ne sp show ?thesis
      by (simp add: parseInt_def Let_def digits_value_decimal_value)
  qed
qed

text \<open>\<open>parseInt\<close> reads exactly the integers described by \<open>reads_integer\<close>.\<close>

lemma parseInt_reads: "(parseInt s = Some v) = reads_integer s v"
  using parseInt_imp_reads reads_imp_parseInt by blast

lemma parseInt_None_reads: "(parseInt s = None) = (\<nexists>v. reads_integer s v)"
  by (cases "parseInt s") (auto simp: parseInt_reads [symmetric])

lemma digits_value_append:
  "digits_value (xs @ ys) acc = digits_value ys (digits_value xs acc)"
  by (induction xs arbitrary: acc) simp_all

lemma parseInt_digits:
  assumes "ds \<noteq> []" "list_all is_digit ds"
  shows "parseInt ds = Some (digits_value ds 0)"
proof -
  from assms obtain c cs where ds: "ds = c # cs" and c: "is_digit c"
    by (cases ds) auto
  from c have n: "c \<noteq> 0x2B" "c \<noteq> hyphen" "\<not> is_space c"
    using digit_not_sign by auto
  have t: "takeWhile is_digit ds = ds"
    using assms(2) by (simp add: takeWhile_eq_all_conv list_all_iff)
  have "dropWhile is_space ds = ds" using ds n by simp
  then show ?thesis
    using ds n t by (simp add: parseInt_def Let_def)
qed

lemma integer_spec_digits:
  assumes "ds \<noteq> []" "list_all is_digit ds"
  shows "integer_spec ds = Some (decimal_value ds)"
proof -
  from assms obtain c cs where ds: "ds = c # cs" and c: "is_digit c"
    by (cases ds) auto
  from c have n: "c \<noteq> 0x2B" "c \<noteq> hyphen"
    using digit_not_sign by auto
  with ds assms show ?thesis
    by (simp add: integer_spec_def Let_def)
qed

text \<open>
  C3, as stated, fails at the month \<open>12abc\<close> and at the month \<open>12.9\<close> (here with the
  years 28 and \<open>2025.9\<close>, in November 2025): neither parses as an integer, so the
  stated rule rejects them, and \<open>isExpiryValid\<close>, whose \<open>parseInt\<close> reads the 12 and
  the 2025 at the start and ignores the rest, accepts them. It fails on the year rule
  too, with the clock in January 2005, at the year \<open>+5\<close>: the string has two characters
  and not two digits, so the stated rule takes the year 5, long past, and
  \<open>isExpiryValid\<close> takes 2005.
\<close>

theorem isExpiryValid_not_expiry_spec:
  "isExpiryValid clock_2025_11 (js ''12abc'') (js ''28'') = True
   \<and> expiry_spec clock_2025_11 (js ''12abc'') (js ''28'') = False
   \<and> isExpiryValid clock_2025_11 (js ''12.9'') (js ''2025.9'') = True
   \<and> expiry_spec clock_2025_11 (js ''12.9'') (js ''2025.9'') = False
   \<and> isExpiryValid clock_2005_01 (js ''12'') (js ''+5'') = True
   \<and> expiry_spec clock_2005_01 (js ''12'') (js ''+5'') = False"
  by code_simp

text \<open>
  C3, amended: with the clock as a parameter, \<open>isExpiryValid\<close> returns false exactly when
  no integer can be read at the start of the month or of the year (after leading white
  space and one optional sign no digit follows), or the integer read for the month (the
  longest run of digits there, whatever follows it) is outside 1 to 12, or the resolved
  year is before the current year, or it is the current year and the month is before
  the current month (\<open>getMonth + 1\<close>); the resolved year is 2000 more than the integer
  read when the year string has exactly two characters, the integer read otherwise. In
  every other case it returns true: a month from 1 to 12 in the current month and year,
  or later, is accepted. On a month and a year that are plain runs of digits, this is
  the rule as the specification words it.
\<close>

theorem isExpiryValid_reads:
  "(isExpiryValid now month year = False) =
     ((\<nexists>m. reads_integer month m) \<or> (\<nexists>y. reads_integer year y)
      \<or> (\<exists>m. reads_integer month m \<and> (m < 1 \<or> 12 < m))
      \<or> (\<exists>y. reads_integer year y
             \<and> (if length year = 2 then 2000 + y else y) < getFullYear now)
      \<or> (\<exists>m y. reads_integer month m \<and> reads_integer year y
             \<and> (if length year = 2 then 2000 + y else y) = getFullYear now
             \<and> m < getMonth now + 1))
   \<and> (reads_integer month m \<and> 1 \<le> m \<and> m \<le> 12 \<and> reads_integer year y
        \<and> (getFullYear now < (if length year = 2 then 2000 + y else y)
            \<or> ((if length year = 2 then 2000 + y else y) = getFullYear now
                \<and> getMonth now + 1 \<le> m))
       \<longrightarrow> isExpiryValid now month year = True)
   \<and> (month \<noteq> [] \<and> list_all is_digit month \<and> year \<noteq> [] \<and> list_all is_digit year
       \<longrightarrow> isExpiryValid now month year = expiry_spec now month year)"
proof (intro conjI impI)
  show "(isExpiryValid now month year = False) =
     ((\<nexists>m. reads_integer month m) \<or> (\<nexists>y. reads_integer year y)
      \<or> (\<exists>m. reads_integer month m \<and> (m < 1 \<or> 12 < m))
      \<or> (\<exists>y. reads_integer year y
             \<and> (if length year = 2 then 2000 + y else y) < getFullYear now)
      \<or> (\<exists>m y. reads_integer month m \<and> reads_integer year y
             \<and> (if length year = 2 then 2000 + y else y) = getFullYear now
             \<and> m < getMonth now + 1))"
    unfolding parseInt_reads [symmetric] parseInt_None_reads [symmetric]
    by (cases "parseInt month"; cases "parseInt year")
       (auto simp: isExpiryValid_def Let_def)
next
  assume "reads_integer month m \<and> 1 \<le> m \<and> m \<le> 12 \<and> reads_integer year y
        \<and> (getFullYear now < (if length year = 2 then 2000 + y else y)
            \<or> ((if length year = 2 then 2000 + y else y) = getFullYear now
                \<and> getMonth now + 1 \<le> m))"
  then show "isExpiryValid now month year = True"
    unfolding parseInt_reads [symmetric]
    by (cases "length year = 2") (auto simp: isExpiryValid_def Let_def)
next
  assume a: "month \<noteq> [] \<and> list_all is_digit month \<and> year \<noteq> [] \<and> list_all is_digit year"
  then have "parseInt month = Some (decimal_value month)"
    "parseInt year = Some (decimal_value year)"
    "integer_spec month = Some (decimal_value month)"
    "integer_spec year = Some (decimal_value year)"
    by (simp_all add: parseInt_digits integer_spec_digits digits_value_decimal_value)
  with a show "isExpiryValid now month year = expiry_spec now month year"
    by (auto simp: isExpiryValid_def expiry_spec_def has_two_digits_def Let_def)
qed

theorem isExpiryValid_reads_witness:
  "isExpiryValid clock_2025_11 (js ''11'') (js ''25'') = True
   \<and> isExpiryValid clock_2025_11 (js ''01'') (js ''2026'') = True
   \<and> isExpiryValid clock_2025_11 (js ''10'') (js ''25'') = False"
proof -
  have d: "js ''11'' \<noteq> [] \<and> list_all is_digit (js ''11'')"
    "js ''01'' \<noteq> [] \<and> list_all is_digit (js ''01'')"
    "js ''10'' \<noteq> [] \<and> list_all is_digit (js ''10'')"
    "js ''25'' \<noteq> [] \<and> list_all is_digit (js ''25'')"
    "js ''2026'' \<noteq> [] \<and> list_all is_digit (js ''2026'')"
    by code_simp+
  have e: "expiry_spec clock_2025_11 (js ''11'') (js ''25'') = True"
    "expiry_spec clock_2025_11 (js ''01'') (js ''2026'') = True"
    "expiry_spec clock_2025_11 (js ''10'') (js ''25'') = False"
    by code_simp+
  from isExpiryValid_reads [of clock_2025_11 "js ''11''" "js ''25''"]
       isExpiryValid_reads [of clock_2025_11 "js ''01''" "js ''2026''"]
       isExpiryValid_reads [of clock_2025_11 "js ''10''" "js ''25''"] d e
  show ?thesis by simp
qed

lemma decimal_digits: "decimal n \<noteq> [] \<and> list_all is_digit (decimal n)"
proof (induction n rule: decimal.induct)
  case (1 n)
  show ?case
  proof (cases "n < 10")
    case True
    then show ?thesis by (simp add: decimal.simps [of n] is_digit_def)
  next
    case False
    have "n mod 10 < 10" by simp
    then have "is_digit (0x30 + n mod 10)" unfolding is_digit_def by linarith
    with False 1 show ?thesis by (simp add: decimal.simps [of n])
  qed
qed

lemma digits_value_decimal: "digits_value (decimal n) 0 = int n"
proof (induction n rule: decimal.induct)
  case (1 n)
  show ?case
  proof (cases "n < 10")
    case True
    then show ?thesis by (simp add: decimal.simps [of n] digit_value_def)
  next
    case False
    with 1 have "digits_value (decimal (n div 10)) 0 = int (n div 10)" by simp
    with False show ?thesis
      by (simp add: decimal.simps [of n] digits_value_append digit_value_def zdiv_int zmod_int)
  qed
qed

lemma parseInt_decimal: "parseInt (decimal n) = Some (int n)"
  using parseInt_digits [of "decimal n"] decimal_digits [of n]
  by (simp add: digits_value_decimal)

lemma length_decimal_2: "length (decimal n) = 2 \<longleftrightarrow> 10 \<le> n \<and> n < 100"
proof -
  have a: "\<And>k. k < 10 \<Longrightarrow> length (decimal k) = 1" by (simp add: decimal.simps)
  have b: "\<And>k. 10 \<le> k \<Longrightarrow> length (decimal k) = Suc (length (decimal (k div 10)))"
    by (subst decimal.simps) simp
  have c: "\<And>k. length (decimal k) \<ge> 1"
    using decimal_digits by (simp add: Suc_leI)
  show ?thesis
  proof (cases "n < 10")
    case True
    then show ?thesis using a by simp
  next
    case False
    show ?thesis
    proof (cases "n < 100")
      case True
      with False have "n div 10 < 10" by simp
      with False True a b show ?thesis by simp
    next
      case f: False
      then have "10 \<le> n div 10" by simp
      with b [of "n div 10"] c [of "n div 10 div 10"] have "length (decimal (n div 10)) \<ge> 2"
        by simp
      with False f b [of n] show ?thesis by simp
    qed
  qed
qed

text \<open>
  For a month from 1 to 12 and a year, both written in decimal, \<open>isExpiryValid\<close> is
  true exactly when the month of that year is the current month or a later one, a year
  of two digits standing for 2000 more.
\<close>

theorem isExpiryValid_numerals:
  assumes "1 \<le> m" "m \<le> 12"
  shows "isExpiryValid now (decimal m) (decimal y) =
     (let full = (if 10 \<le> y \<and> y < 100 then 2000 + int y else int y)
      in getFullYear now < full \<or> (full = getFullYear now \<and> getMonth now + 1 \<le> int m))"
  using assms
  by (auto simp: isExpiryValid_def parseInt_decimal length_decimal_2 Let_def)

theorem isExpiryValid_numerals_witness:
  "isExpiryValid clock_2025_11 (decimal 12) (decimal 28) = True
   \<and> isExpiryValid clock_2025_11 (decimal 10) (decimal 2025) = False"
proof -
  have c: "getFullYear clock_2025_11 = 2025" "getMonth clock_2025_11 = 10"
    by (simp_all add: clock_2025_11_def)
  from isExpiryValid_numerals [of 12 clock_2025_11 28]
       isExpiryValid_numerals [of 10 clock_2025_11 2025] c
  show ?thesis by simp
qed

lemma parseInt_two_chars:
  assumes "length year = 2" "\<not> list_all is_digit year" "parseInt year = Some y"
  shows "- 9 \<le> y \<and> y \<le> 9"
proof -
  from assms(1) obtain a b where y: "year = [a, b]"
    by (auto simp: eval_nat_numeral length_Suc_conv)
  from assms(2,3) show ?thesis
    unfolding y parseInt_def Let_def
    by (auto split: if_splits dest: digit_value_range digit_not_sign)
qed

text \<open>
  From the year 2010 on, the two readings of the year rule give the same answer on
  every input: a year string of two characters that is not two digits parses to at most
  9, which is in the past with or without the offset.
\<close>

theorem isExpiryValid_two_digit_year:
  assumes "2010 \<le> getFullYear now"
  shows "isExpiryValid now month year = isExpiryValid_strict now month year"
proof (cases "length year = 2 \<and> \<not> list_all is_digit year")
  case False
  then show ?thesis
    by (cases "parseInt month"; cases "parseInt year")
       (auto simp: isExpiryValid_def isExpiryValid_strict_def resolved_year_strict_def Let_def)
next
  case True
  show ?thesis
  proof (cases "parseInt year")
    case None
    then show ?thesis
      by (cases "parseInt month")
         (auto simp: isExpiryValid_def isExpiryValid_strict_def resolved_year_strict_def Let_def)
  next
    case (Some y)
    with True parseInt_two_chars [of year y] have "- 9 \<le> y \<and> y \<le> 9" by simp
    with assms True Some show ?thesis
      by (cases "parseInt month")
         (auto simp: isExpiryValid_def isExpiryValid_strict_def resolved_year_strict_def Let_def)
  qed
qed

theorem isExpiryValid_two_digit_year_witness:
  "isExpiryValid_strict clock_2025_11 (js ''12'') (js ''9x'') = False
   \<and> isExpiryValid_strict clock_2025_11 (js ''12'') (js ''28'') = True"
proof -
  have c: "2010 \<le> getFullYear clock_2025_11" by (simp add: clock_2025_11_def)
  have e: "isExpiryValid clock_2025_11 (js ''12'') (js ''9x'') = False"
    "isExpiryValid clock_2025_11 (js ''12'') (js ''28'') = True"
    by code_simp+
  from isExpiryValid_two_digit_year [OF c, of "js ''12''" "js ''9x''"]
       isExpiryValid_two_digit_year [OF c, of "js ''12''" "js ''28''"] e
  show ?thesis by simp
qed

section \<open>Routing\<close>

lemma split_slash_free: "0x2F \<notin> set w \<Longrightarrow> split_slash w = [w]"
  by (induction w) auto

lemma split_slash_append:
  "0x2F \<notin> set w \<Longrightarrow> split_slash (w @ 0x2F # rest) = w # split_slash rest"
  by (induction w) auto

lemma split_slash_segments: "seg \<in> set (split_slash p) \<Longrightarrow> 0x2F \<notin> set seg"
  by (induction p arbitrary: seg) (auto split: if_splits list.splits)

lemma pathSegments_segments:
  "seg \<in> set (pathSegments p) \<Longrightarrow> seg \<noteq> [] \<and> 0x2F \<notin> set seg"
  by (auto simp: pathSegments_def dest: split_slash_segments)

text \<open>
  The path made of \<open>cardinfo\<close> and four non-empty parameters without a slash splits
  into these five segments.
\<close>

lemma pathSegments_card_path:
  assumes "b \<noteq> []" "c \<noteq> []" "m \<noteq> []" "y \<noteq> []"
    and "0x2F \<notin> set b" "0x2F \<notin> set c" "0x2F \<notin> set m" "0x2F \<notin> set y"
  shows "pathSegments (card_path b c m y) = [js ''cardinfo'', b, c, m, y]"
proof -
  have p: "card_path b c m y
           = [] @ 0x2F # js ''cardinfo'' @ 0x2F # b @ 0x2F # c @ 0x2F # m @ 0x2F # y"
    by (simp add: card_path_def js_def)
  have f: "0x2F \<notin> set (js ''cardinfo'')" by (simp add: js_def)
  have "split_slash (card_path b c m y) = [[], js ''cardinfo'', b, c, m, y]"
    unfolding p using assms f
    by (simp only: split_slash_append split_slash_free set_simps empty_iff not_False_eq_True)
  moreover have "js ''cardinfo'' \<noteq> []" by (simp add: js_def)
  ultimately show ?thesis using assms by (simp add: pathSegments_def)
qed

lemma length_five: "length xs = 5 \<Longrightarrow> \<exists>a b c d e. xs = [a, b, c, d, e]"
  by (auto simp: eval_nat_numeral length_Suc_conv)

text \<open>When \<open>url.parse\<close> throws, nothing is written.\<close>

lemma server_threw:
  "url_parse (req_url req) = None \<Longrightarrow> server url_parse P net now req = UrlParseThrew"
  by (simp add: server_def)

lemma server_not_routed:
  assumes "url_parse (req_url req) = Some p"
    and "\<not> (req_method req = js ''GET''
              \<and> (\<exists>b c m y. pathSegments p = [js ''cardinfo'', b, c, m, y]))"
  shows "server url_parse P net now req = Answered not_found"
proof -
  have "\<not> (req_method req = js ''GET''
           \<and> (case pathSegments p of [] \<Rightarrow> False | s # _ \<Rightarrow> s = js ''cardinfo'')
           \<and> length (pathSegments p) = 5)"
  proof
    assume c: "req_method req = js ''GET''
           \<and> (case pathSegments p of [] \<Rightarrow> False | s # _ \<Rightarrow> s = js ''cardinfo'')
           \<and> length (pathSegments p) = 5"
    then obtain s b c m y where e: "pathSegments p = [s, b, c, m, y]"
      using length_five by blast
    with c have "s = js ''cardinfo''" by simp
    with c e assms(2) show False by simp
  qed
  then have nc: "(req_method req = js ''GET''
           \<and> (case pathSegments p of [] \<Rightarrow> False | s # _ \<Rightarrow> s = js ''cardinfo'')
           \<and> length (pathSegments p) = 5) = False"
    by simp
  show ?thesis
    unfolding server_def Let_def assms(1) option.case nc by (simp only: if_False)
qed

lemma server_invalid:
  assumes "url_parse (req_url req) = Some p" "req_method req = js ''GET''"
    and "pathSegments p = [js ''cardinfo'', b, c, m, y]"
    and "\<not> luhnCheck c \<or> \<not> isExpiryValid now m y"
  shows "\<exists>r. server url_parse P net now req
               = Answered \<lparr>statusCode = 400, body = Enriched r, outbound = []\<rparr>
           \<and> metadata r = API_METADATA
           \<and> request r = \<lparr>bin = b, cardNumber = c, expiryMonth = m, expiryYear = y\<rparr>
           \<and> validation r = \<lparr>luhn_valid = Some (luhnCheck c),
                               expiry_valid = Some (isExpiryValid now m y)\<rparr>
           \<and> card_info r = None"
  using assms
  by (auto simp add: server_def Let_def)

lemma server_valid:
  assumes "url_parse (req_url req) = Some p" "req_method req = js ''GET''"
    and "pathSegments p = [js ''cardinfo'', b, c, m, y]"
    and "luhnCheck c" "isExpiryValid now m y"
  shows "server url_parse P net now req =
     (let response = \<lparr>metadata = API_METADATA,
                request = \<lparr>bin = b, cardNumber = c, expiryMonth = m, expiryYear = y\<rparr>,
                validation = \<lparr>luhn_valid = Some True, expiry_valid = Some True\<rparr>,
                card_info = None,
                status = js ''error'',
                message = js ''Processamento iniciado.''\<rparr>
      in case lookupBin P net b of
           (sent, None) \<Rightarrow> NeverSettled sent
         | (sent, Some (Inr binData)) \<Rightarrow>
             (let response = response\<lparr>status := js ''success'', message :=
                         js ''Valida'' @ [0xE7, 0xE3] @ js ''o e consulta conclu'' @ [0xED]
                           @ js ''das com sucesso.''\<rparr>
              in case card_info_of binData of
                   Some info \<Rightarrow>
                     Answered
                       \<lparr>statusCode = 200,
                        body = Enriched (response\<lparr>card_info := Some info\<rparr>),
                        outbound = sent\<rparr>
                 | None \<Rightarrow> Answered (catch_block response sent TypeError))
         | (sent, Some (Inl e)) \<Rightarrow> Answered (catch_block response sent e))"
  using assms
  by (simp add: server_def Let_def split: prod.splits sum.splits option.splits)

text \<open>
  What \<open>lookupBin\<close> gives: no request and a rejection with a \<open>TypeError\<close> for a path
  that \<open>https.request\<close> refuses, one request otherwise.
\<close>

lemma lookupBin_cases:
  "lookupBin P net b = ([], Some (Inl TypeError)) \<and> \<not> valid_request_path (options_path b)
   \<or> (\<exists>s. lookupBin P net b = ([options_path b], s) \<and> valid_request_path (options_path b)
          \<and> (s = None) = (net (options_path b) = Aborted))"
  by (auto simp: lookupBin_def Let_def split: upstream.splits sum.splits)

text \<open>
  A routed request is answered, unless its lookup is never settled; every answer to it
  carries the metadata, the echo of the four segments and both validation results.
\<close>

lemma server_routed_outcome:
  assumes "url_parse (req_url req) = Some p" "req_method req = js ''GET''"
    and "pathSegments p = [js ''cardinfo'', b, c, m, y]"
  shows "(\<exists>reply. server url_parse P net now req = Answered reply)
         \<or> server url_parse P net now req = NeverSettled [options_path b]"
proof (cases "luhnCheck c \<and> isExpiryValid now m y")
  case False
  then have "\<not> luhnCheck c \<or> \<not> isExpiryValid now m y" by simp
  from server_invalid [where url_parse = url_parse and P = P and net = net, OF assms this]
  show ?thesis by blast
next
  case True
  then have sv: "server url_parse P net now req = (let response = \<lparr>metadata = API_METADATA,
                request = \<lparr>bin = b, cardNumber = c, expiryMonth = m, expiryYear = y\<rparr>,
                validation = \<lparr>luhn_valid = Some True, expiry_valid = Some True\<rparr>,
                card_info = None,
                status = js ''error'',
                message = js ''Processamento iniciado.''\<rparr>
      in case lookupBin P net b of
           (sent, None) \<Rightarrow> NeverSettled sent
         | (sent, Some (Inr binData)) \<Rightarrow>
             (let response = response\<lparr>status := js ''success'', message :=
                         js ''Valida'' @ [0xE7, 0xE3] @ js ''o e consulta conclu'' @ [0xED]
                           @ js ''das com sucesso.''\<rparr>
              in case card_info_of binData of
                   Some info \<Rightarrow>
                     Answered
                       \<lparr>statusCode = 200,
                        body = Enriched (response\<lparr>card_info := Some info\<rparr>),
                        outbound = sent\<rparr>
                 | None \<Rightarrow> Answered (catch_block response sent TypeError))
         | (sent, Some (Inl e)) \<Rightarrow> Answered (catch_block response sent e))"
    using server_valid [where url_parse = url_parse and P = P and net = net, OF assms] by simp
  from lookupBin_cases [of P net b] show ?thesis
    by (auto simp: sv Let_def split: sum.splits option.splits)
qed

lemma server_routed_reply:
  assumes "url_parse (req_url req) = Some p" "req_method req = js ''GET''"
    and "pathSegments p = [js ''cardinfo'', b, c, m, y]"
    and "server url_parse P net now req = Answered reply"
  shows "\<exists>r. body reply = Enriched r \<and> metadata r = API_METADATA
           \<and> request r = \<lparr>bin = b, cardNumber = c, expiryMonth = m, expiryYear = y\<rparr>
           \<and> luhn_valid (validation r) = Some (luhnCheck c)
           \<and> expiry_valid (validation r) = Some (isExpiryValid now m y)"
proof (cases "luhnCheck c \<and> isExpiryValid now m y")
  case False
  then have "\<not> luhnCheck c \<or> \<not> isExpiryValid now m y" by simp
  from server_invalid [where url_parse = url_parse and P = P and net = net, OF assms(1-3) this]
    assms(4)
  show ?thesis by auto
next
  case True
  with assms(4) server_valid [where url_parse = url_parse and P = P and net = net,
                                OF assms(1-3)]
  show ?thesis
    by (auto simp: Let_def catch_block_def split: prod.splits sum.splits option.splits)
qed

lemma not_found_body: "body not_found \<noteq> Enriched r"
  by (simp add: not_found_def)

text \<open>
  C6, as stated, fails at a POST for \<open>/cardinfo/457173/4571736000000000/12/28\<close>: its
  path splits into the five segments and the handler answers it with the 404 of an
  unknown route.
\<close>

theorem post_not_a_card_query:
  "map_option pathSegments (url_parse_examples (req_url post_request))
     = Some [js ''cardinfo'', js ''457173'', js ''4571736000000000'', js ''12'', js ''28'']
   \<and> server url_parse_examples parse_examples network_down clock_2025_11 post_request
     = Answered not_found"
  by code_simp

text \<open>
  C6, amended: a request whose URL \<open>url.parse\<close> accepts is processed as a card query
  exactly when its method is GET and its path splits into five non-empty segments the
  first of which is \<open>cardinfo\<close>; every other such request receives the reply
  \<open>not_found\<close>: status 404, the fixed usage hint as body (status \<open>error\<close>, a message
  and an example, no metadata, no request echo), and no outbound request. The segments
  are the non-empty pieces of the path between its slashes. A request whose URL
  \<open>url.parse\<close> refuses is left out of this statement.
\<close>

theorem server_route:
  "(url_parse (req_url req) = Some p \<longrightarrow>
      (server url_parse P net now req = Answered not_found)
        = (\<not> (req_method req = js ''GET''
               \<and> (\<exists>b c m y. pathSegments p = [js ''cardinfo'', b, c, m, y]))))
   \<and> (\<forall>seg \<in> set (pathSegments p). seg \<noteq> [] \<and> 0x2F \<notin> set seg)
   \<and> statusCode not_found = 404
   \<and> outbound not_found = []
   \<and> reply_response not_found = None
   \<and> (\<exists>h. body not_found = Usage h \<and> hint_status h = js ''error''
           \<and> hint_example h = js ''/cardinfo/457173/4571736000000000/12/28'')"
proof (intro conjI impI)
  assume u: "url_parse (req_url req) = Some p"
  show "(server url_parse P net now req = Answered not_found)
     = (\<not> (req_method req = js ''GET''
            \<and> (\<exists>b c m y. pathSegments p = [js ''cardinfo'', b, c, m, y])))"
  proof
    assume nf: "server url_parse P net now req = Answered not_found"
    show "\<not> (req_method req = js ''GET''
            \<and> (\<exists>b c m y. pathSegments p = [js ''cardinfo'', b, c, m, y]))"
    proof
      assume "req_method req = js ''GET''
            \<and> (\<exists>b c m y. pathSegments p = [js ''cardinfo'', b, c, m, y])"
      then obtain b c m y where "req_method req = js ''GET''"
        "pathSegments p = [js ''cardinfo'', b, c, m, y]" by blast
      from server_routed_reply [where url_parse = url_parse, OF u this nf]
      obtain r where "body not_found = Enriched r" by blast
      then show False by (simp add: not_found_body)
    qed
  next
    assume "\<not> (req_method req = js ''GET''
            \<and> (\<exists>b c m y. pathSegments p = [js ''cardinfo'', b, c, m, y]))"
    with u show "server url_parse P net now req = Answered not_found"
      by (rule server_not_routed [where url_parse = url_parse])
  qed
next
  show "\<forall>seg \<in> set (pathSegments p). seg \<noteq> [] \<and> 0x2F \<notin> set seg"
    using pathSegments_segments by blast
qed (simp_all add: not_found_def reply_response_def)

theorem server_route_witness:
  "server url_parse_examples parse_examples network_down clock_2025_11 example_request
     \<noteq> Answered not_found
   \<and> server url_parse_examples parse_examples network_down clock_2025_11
       \<lparr>req_method = js ''GET'', req_url = js ''/foo''\<rparr> = Answered not_found"
proof -
  have a: "req_method example_request = js ''GET''"
    by (simp add: example_request_def)
  have u: "url_parse_examples (req_url example_request)
           = Some (js ''/cardinfo/457173/4571736000000000/12/28'')"
    by code_simp
  have b: "pathSegments (js ''/cardinfo/457173/4571736000000000/12/28'')
     = [js ''cardinfo'', js ''457173'', js ''4571736000000000'', js ''12'', js ''28'']"
    by code_simp
  have v: "url_parse_examples (req_url \<lparr>req_method = js ''GET'', req_url = js ''/foo''\<rparr>)
           = Some (js ''/foo'')"
    by code_simp
  have c: "pathSegments (js ''/foo'') = [js ''foo'']"
    by code_simp
  from server_route [of url_parse_examples example_request
                        "js ''/cardinfo/457173/4571736000000000/12/28''"
                        parse_examples network_down clock_2025_11] a u b
  have "server url_parse_examples parse_examples network_down clock_2025_11 example_request
          \<noteq> Answered not_found"
    by simp
  moreover
  from server_route [of url_parse_examples "\<lparr>req_method = js ''GET'', req_url = js ''/foo''\<rparr>"
                        "js ''/foo''" parse_examples network_down clock_2025_11] v c
  have "server url_parse_examples parse_examples network_down clock_2025_11
       \<lparr>req_method = js ''GET'', req_url = js ''/foo''\<rparr> = Answered not_found"
    by simp
  ultimately show ?thesis by simp
qed

text \<open>
  C10 holds for every request whose URL \<open>url.parse\<close> accepts, and fails at a POST for
  \<open>http://xn--/cardinfo/457173/4571736000000000/12/28\<close>: the method is not GET and the
  path matches, but \<open>url.parse\<close>, called before the method is tested and outside any
  \<open>try\<close>, throws on this host; the handler writes no reply, neither the 404 nor
  any other.
\<close>

theorem bad_host_post_unanswered:
  "req_method bad_host_post = js ''POST''
   \<and> url_parse_examples (req_url bad_host_post) = None
   \<and> server url_parse_examples parse_examples network_down clock_2025_11 bad_host_post
       = UrlParseThrew
   \<and> answer_status
       (server url_parse_examples parse_examples network_down clock_2025_11 bad_host_post)
       = None"
  by code_simp

text \<open>
  A request whose method is not GET and whose URL \<open>url.parse\<close> accepts, whatever its
  path, receives the reply of an unknown path (here a request for \<open>/foo\<close>): status 404
  with the usage hint, no validation object and no outbound request.
\<close>

theorem server_other_method:
  "url_parse (req_url req) = Some p \<and> req_method req \<noteq> js ''GET''
   \<and> url_parse (req_url other) = Some (js ''/foo'') \<longrightarrow>
     server url_parse P net now req = Answered not_found
     \<and> server url_parse P net now req = server url_parse P net now other
     \<and> answer_status (server url_parse P net now req) = Some 404
     \<and> requests_issued (server url_parse P net now req) = []
     \<and> answer_response (server url_parse P net now req) = None"
proof
  assume h: "url_parse (req_url req) = Some p \<and> req_method req \<noteq> js ''GET''
   \<and> url_parse (req_url other) = Some (js ''/foo'')"
  then have a: "server url_parse P net now req = Answered not_found"
    by (intro server_not_routed [of url_parse req p]) simp_all
  have "pathSegments (js ''/foo'') = [js ''foo'']"
    by code_simp
  with h have "server url_parse P net now other = Answered not_found"
    by (intro server_not_routed [of url_parse other "js ''/foo''"]) simp_all
  with a show "server url_parse P net now req = Answered not_found
     \<and> server url_parse P net now req = server url_parse P net now other
     \<and> answer_status (server url_parse P net now req) = Some 404
     \<and> requests_issued (server url_parse P net now req) = []
     \<and> answer_response (server url_parse P net now req) = None"
    by (simp add: not_found_def reply_response_def answer_status_def requests_issued_def
          answer_response_def)
qed

theorem server_other_method_witness:
  "server url_parse_examples parse_examples replies_denmark clock_2025_11 post_request
     = Answered not_found
   \<and> requests_issued
       (server url_parse_examples parse_examples replies_denmark clock_2025_11 post_request)
     = []"
proof -
  have "url_parse_examples (req_url post_request)
          = Some (js ''/cardinfo/457173/4571736000000000/12/28'')
        \<and> req_method post_request \<noteq> js ''GET''
        \<and> url_parse_examples (req_url \<lparr>req_method = js ''GET'', req_url = js ''/foo''\<rparr>)
          = Some (js ''/foo'')"
    by code_simp
  with server_other_method [of url_parse_examples post_request
         "js ''/cardinfo/457173/4571736000000000/12/28''"
         "\<lparr>req_method = js ''GET'', req_url = js ''/foo''\<rparr>"
         parse_examples replies_denmark clock_2025_11]
  show ?thesis by blast
qed

section \<open>Validation and the response envelope\<close>

text \<open>
  C5: for a request that is routed (GET, five segments, the first \<open>cardinfo\<close>), the
  validation object of every reply holds both booleans, the result of \<open>luhnCheck\<close> on
  the card number and of \<open>isExpiryValid\<close> on the month and year, whatever the outcome.
  When the checksum is invalid the reply is 400 with \<open>card_info\<close> null; so it is when
  the checksum is valid and the expiry is not; in both cases no outbound request is
  issued. A routed request is answered unless its lookup is never settled.
\<close>

theorem server_validation:
  assumes "url_parse (req_url req) = Some p"
    and "req_method req = js ''GET''"
    and "pathSegments p = [js ''cardinfo'', b, c, m, y]"
  shows "(\<forall>reply. server url_parse P net now req = Answered reply \<longrightarrow>
            (\<exists>r. body reply = Enriched r
               \<and> luhn_valid (validation r) = Some (luhnCheck c)
               \<and> expiry_valid (validation r) = Some (isExpiryValid now m y)))
         \<and> (\<not> luhnCheck c \<longrightarrow>
               (\<exists>r. server url_parse P net now req
                      = Answered \<lparr>statusCode = 400, body = Enriched r, outbound = []\<rparr>
                  \<and> card_info r = None
                  \<and> luhn_valid (validation r) = Some False
                  \<and> expiry_valid (validation r) = Some (isExpiryValid now m y)))
         \<and> (luhnCheck c \<and> \<not> isExpiryValid now m y \<longrightarrow>
               (\<exists>r. server url_parse P net now req
                      = Answered \<lparr>statusCode = 400, body = Enriched r, outbound = []\<rparr>
                  \<and> card_info r = None
                  \<and> luhn_valid (validation r) = Some True
                  \<and> expiry_valid (validation r) = Some False))
         \<and> ((\<exists>reply. server url_parse P net now req = Answered reply)
              \<or> server url_parse P net now req = NeverSettled [0x2F # b])"
proof (intro conjI allI impI)
  fix reply
  assume "server url_parse P net now req = Answered reply"
  from server_routed_reply [where url_parse = url_parse, OF assms this]
  show "\<exists>r. body reply = Enriched r
               \<and> luhn_valid (validation r) = Some (luhnCheck c)
               \<and> expiry_valid (validation r) = Some (isExpiryValid now m y)"
    by blast
next
  assume n: "\<not> luhnCheck c"
  then have "\<not> luhnCheck c \<or> \<not> isExpiryValid now m y" by simp
  from server_invalid [where url_parse = url_parse and P = P and net = net, OF assms this] n
  show "\<exists>r. server url_parse P net now req
                      = Answered \<lparr>statusCode = 400, body = Enriched r, outbound = []\<rparr>
                  \<and> card_info r = None
                  \<and> luhn_valid (validation r) = Some False
                  \<and> expiry_valid (validation r) = Some (isExpiryValid now m y)"
    by auto
next
  assume n: "luhnCheck c \<and> \<not> isExpiryValid now m y"
  then have "\<not> luhnCheck c \<or> \<not> isExpiryValid now m y" by simp
  from server_invalid [where url_parse = url_parse and P = P and net = net, OF assms this] n
  show "\<exists>r. server url_parse P net now req
                      = Answered \<lparr>statusCode = 400, body = Enriched r, outbound = []\<rparr>
                  \<and> card_info r = None
                  \<and> luhn_valid (validation r) = Some True
                  \<and> expiry_valid (validation r) = Some False"
    by auto
next
  from server_routed_outcome [where url_parse = url_parse and P = P and net = net, OF assms]
  show "(\<exists>reply. server url_parse P net now req = Answered reply)
              \<or> server url_parse P net now req = NeverSettled [0x2F # b]"
    by (simp add: options_path_def)
qed

theorem server_validation_witness:
  "answer_status
     (server url_parse_examples parse_examples replies_denmark clock_2025_11 bad_luhn_request)
     = Some 400
   \<and> requests_issued
       (server url_parse_examples parse_examples replies_denmark clock_2025_11
          bad_luhn_request) = []
   \<and> answer_card_info
       (server url_parse_examples parse_examples replies_denmark clock_2025_11
          bad_luhn_request) = None
   \<and> map_option validation
        (answer_response
           (server url_parse_examples parse_examples replies_denmark clock_2025_11
              bad_luhn_request))
       = Some \<lparr>luhn_valid = Some False, expiry_valid = Some True\<rparr>"
proof -
  have a: "req_method bad_luhn_request = js ''GET''"
    by (simp add: bad_luhn_request_def)
  have u: "url_parse_examples (req_url bad_luhn_request)
           = Some (js ''/cardinfo/457173/4571736000000001/12/28'')"
    by code_simp
  have b: "pathSegments (js ''/cardinfo/457173/4571736000000001/12/28'')
     = [js ''cardinfo'', js ''457173'', js ''4571736000000001'', js ''12'', js ''28'']"
    by code_simp
  have l: "luhnCheck (js ''4571736000000001'') = False" by code_simp
  have e: "isExpiryValid clock_2025_11 (js ''12'') (js ''28'') = True" by code_simp
  from server_validation [where url_parse = url_parse_examples and P = parse_examples
                            and net = replies_denmark and now = clock_2025_11, OF u a b] l e
  show ?thesis
    by (auto simp: answer_status_def requests_issued_def answer_card_info_def
          answer_response_def reply_card_info_def reply_response_def)
qed

text \<open>
  C8: every reply of the handler other than the 404 of an unknown route carries the
  fixed metadata (author, contact, version) and a request object that echoes the four
  path parameters as they stand in the path, whatever the validators and the upstream
  service say.
\<close>

theorem server_envelope:
  "(\<forall>reply. server url_parse P net now req = Answered reply \<longrightarrow>
      reply = not_found
      \<or> (\<exists>p b c m y r. url_parse (req_url req) = Some p
            \<and> pathSegments p = [js ''cardinfo'', b, c, m, y]
            \<and> body reply = Enriched r
            \<and> metadata r = API_METADATA
            \<and> request r = \<lparr>bin = b, cardNumber = c, expiryMonth = m, expiryYear = y\<rparr>))
   \<and> (v \<noteq> [] \<and> w \<noteq> [] \<and> x \<noteq> [] \<and> z \<noteq> []
       \<and> 0x2F \<notin> set v \<and> 0x2F \<notin> set w \<and> 0x2F \<notin> set x \<and> 0x2F \<notin> set z
       \<and> req_method req = js ''GET'' \<and> url_parse (req_url req) = Some (card_path v w x z)
       \<longrightarrow> (\<forall>reply. server url_parse P net now req = Answered reply \<longrightarrow>
               (\<exists>r. body reply = Enriched r
                  \<and> metadata r = API_METADATA
                  \<and> request r
                      = \<lparr>bin = v, cardNumber = w, expiryMonth = x, expiryYear = z\<rparr>))
           \<and> ((\<exists>reply. server url_parse P net now req = Answered reply)
                \<or> server url_parse P net now req = NeverSettled [0x2F # v]))
   \<and> API_METADATA
       = \<lparr>author = js ''Sam'', contact = js ''t.me/samblackhat'',
          version = js ''1.0.1-enriched''\<rparr>"
proof (intro conjI impI allI)
  fix reply
  assume a: "server url_parse P net now req = Answered reply"
  show "reply = not_found
      \<or> (\<exists>p b c m y r. url_parse (req_url req) = Some p
            \<and> pathSegments p = [js ''cardinfo'', b, c, m, y]
            \<and> body reply = Enriched r
            \<and> metadata r = API_METADATA
            \<and> request r = \<lparr>bin = b, cardNumber = c, expiryMonth = m, expiryYear = y\<rparr>)"
  proof (cases "url_parse (req_url req)")
    case None
    with a show ?thesis by (simp add: server_threw)
  next
    case (Some p)
    show ?thesis
    proof (cases "req_method req = js ''GET''
              \<and> (\<exists>b c m y. pathSegments p = [js ''cardinfo'', b, c, m, y])")
      case True
      then obtain b c m y where g: "req_method req = js ''GET''"
        and s: "pathSegments p = [js ''cardinfo'', b, c, m, y]" by blast
      from server_routed_reply [where url_parse = url_parse, OF Some g s a] Some s
      show ?thesis by blast
    next
      case False
      from server_not_routed [where url_parse = url_parse, OF Some False, of P net now] a
      show ?thesis by simp
    qed
  qed
next
  fix reply
  assume h: "v \<noteq> [] \<and> w \<noteq> [] \<and> x \<noteq> [] \<and> z \<noteq> []
       \<and> 0x2F \<notin> set v \<and> 0x2F \<notin> set w \<and> 0x2F \<notin> set x \<and> 0x2F \<notin> set z
       \<and> req_method req = js ''GET'' \<and> url_parse (req_url req) = Some (card_path v w x z)"
    and a: "server url_parse P net now req = Answered reply"
  from h have s: "pathSegments (card_path v w x z) = [js ''cardinfo'', v, w, x, z]"
    by (intro pathSegments_card_path) simp_all
  from h have g: "req_method req = js ''GET''"
    and u: "url_parse (req_url req) = Some (card_path v w x z)" by simp_all
  from server_routed_reply [where url_parse = url_parse, OF u g s a]
  show "\<exists>r. body reply = Enriched r
                  \<and> metadata r = API_METADATA
                  \<and> request r
                      = \<lparr>bin = v, cardNumber = w, expiryMonth = x, expiryYear = z\<rparr>"
    by blast
next
  assume h: "v \<noteq> [] \<and> w \<noteq> [] \<and> x \<noteq> [] \<and> z \<noteq> []
       \<and> 0x2F \<notin> set v \<and> 0x2F \<notin> set w \<and> 0x2F \<notin> set x \<and> 0x2F \<notin> set z
       \<and> req_method req = js ''GET'' \<and> url_parse (req_url req) = Some (card_path v w x z)"
  from h have s: "pathSegments (card_path v w x z) = [js ''cardinfo'', v, w, x, z]"
    by (intro pathSegments_card_path) simp_all
  from h have g: "req_method req = js ''GET''"
    and u: "url_parse (req_url req) = Some (card_path v w x z)" by simp_all
  from server_routed_outcome [where url_parse = url_parse and P = P and net = net, OF u g s]
  show "(\<exists>reply. server url_parse P net now req = Answered reply)
                \<or> server url_parse P net now req = NeverSettled [0x2F # v]"
    by (simp add: options_path_def)
next
  show "API_METADATA
       = \<lparr>author = js ''Sam'', contact = js ''t.me/samblackhat'',
          version = js ''1.0.1-enriched''\<rparr>"
    by (simp add: API_METADATA_def)
qed

theorem server_envelope_witness:
  "map_option request
     (answer_response
        (server url_parse_examples parse_examples network_down clock_2025_11
           \<lparr>req_method = js ''GET'',
            req_url = card_path (js ''457173'') (js ''4571736000000000'') (js ''12'') (js ''28'')\<rparr>))
   = Some \<lparr>bin = js ''457173'', cardNumber = js ''4571736000000000'',
           expiryMonth = js ''12'', expiryYear = js ''28''\<rparr>"
proof -
  let ?req = "\<lparr>req_method = js ''GET'',
            req_url = card_path (js ''457173'') (js ''4571736000000000'') (js ''12'') (js ''28'')\<rparr>"
  have h: "js ''457173'' \<noteq> [] \<and> js ''4571736000000000'' \<noteq> [] \<and> js ''12'' \<noteq> []
        \<and> js ''28'' \<noteq> []
        \<and> 0x2F \<notin> set (js ''457173'') \<and> 0x2F \<notin> set (js ''4571736000000000'')
        \<and> 0x2F \<notin> set (js ''12'') \<and> 0x2F \<notin> set (js ''28'')"
    by (simp add: js_def)
  have u: "req_method ?req = js ''GET''
     \<and> url_parse_examples (req_url ?req)
       = Some (card_path (js ''457173'') (js ''4571736000000000'') (js ''12'') (js ''28''))"
    by code_simp
  have n: "server url_parse_examples parse_examples network_down clock_2025_11 ?req
           \<noteq> NeverSettled [0x2F # js ''457173'']"
    by code_simp
  from server_envelope [of url_parse_examples parse_examples network_down clock_2025_11 ?req
                          "js ''457173''" "js ''4571736000000000''" "js ''12''" "js ''28''"]
       h u n
  show ?thesis
    by (auto simp: answer_response_def reply_response_def)
qed

section \<open>The upstream reply\<close>

lemma get_prop_read:
  "d \<noteq> JNull \<Longrightarrow> d \<noteq> JUndefined \<Longrightarrow> get_prop d k = Some (read_prop d k)"
  by (cases d) (simp_all add: read_prop_def)

lemma truthy_get_prop: "truthy v \<Longrightarrow> get_prop v k = Some (read_prop v k)"
  by (cases v) (simp_all add: read_prop_def)

lemma or_NA_read:
  "d \<noteq> JNull \<Longrightarrow> d \<noteq> JUndefined \<Longrightarrow> or_NA d k = Some (top_field d k)"
  by (simp add: or_NA_def get_prop_read top_field_def)

lemma sub_or_NA_read:
  "d \<noteq> JNull \<Longrightarrow> d \<noteq> JUndefined \<Longrightarrow> sub_or_NA d p k = Some (nested_field d p k)"
  by (simp add: sub_or_NA_def get_prop_read truthy_get_prop nested_field_def)

text \<open>
  Reading \<open>binData.scheme\<close> throws on \<open>null\<close> (and \<open>undefined\<close>); on every other
  value no read throws and the object literal is built.
\<close>

lemma card_info_of_null: "card_info_of JNull = None \<and> card_info_of JUndefined = None"
  by (simp add: card_info_of_def or_NA_def)

lemma card_info_of_value:
  assumes "d \<noteq> JNull" "d \<noteq> JUndefined"
  shows "card_info_of d =
     Some \<lparr>scheme = top_field d (js ''scheme''), brand = top_field d (js ''brand''),
           type_field = top_field d (js ''type''),
           prepaid = (if read_prop d (js ''prepaid'') = JBool True then Sim else Nao),
           number_details =
             \<lparr>length_field = nested_field d (js ''number'') (js ''length''),
              luhn_check_status =
                (if truthy (read_prop d (js ''number''))
                 then (if truthy (read_prop (read_prop d (js ''number'')) (js ''luhn''))
                       then Sim else Nao)
                 else NA)\<rparr>,
           country =
             \<lparr>country_name = nested_field d (js ''country'') (js ''name''),
              alpha2 = nested_field d (js ''country'') (js ''alpha2''),
              numeric = nested_field d (js ''country'') (js ''numeric''),
              currency = nested_field d (js ''country'') (js ''currency''),
              emoji = nested_field d (js ''country'') (js ''emoji''),
              coordinates =
                \<lparr>latitude = nested_field d (js ''country'') (js ''latitude''),
                 longitude = nested_field d (js ''country'') (js ''longitude'')\<rparr>\<rparr>,
           bank =
             \<lparr>bank_name = nested_field d (js ''bank'') (js ''name''),
              url = nested_field d (js ''bank'') (js ''url''),
              phone_sac = nested_field d (js ''bank'') (js ''phone''),
              city = nested_field d (js ''bank'') (js ''city'')\<rparr>\<rparr>"
  using assms
  by (simp add: card_info_of_def or_NA_read sub_or_NA_read get_prop_read truthy_get_prop)

lemma lookupBin_failure:
  "snd (lookupBin P net b) = Some (Inl e) \<Longrightarrow> catch_status e = 404 \<or> catch_status e = 500"
  by (auto simp: lookupBin_def Let_def split: upstream.splits if_splits sum.splits)

text \<open>A reply has status 200 only when the lookup resolved and no property read threw.\<close>

lemma server_200:
  assumes "answer_status (server url_parse P net now req) = Some 200"
  shows "\<exists>p d info. url_parse (req_url req) = Some p
           \<and> snd (lookupBin P net (pathSegments p ! 1)) = Some (Inr d)
           \<and> d \<noteq> JNull \<and> d \<noteq> JUndefined
           \<and> card_info_of d = Some info
           \<and> answer_card_info (server url_parse P net now req) = Some info"
proof -
  obtain p where u: "url_parse (req_url req) = Some p"
    using assms by (cases "url_parse (req_url req)") (auto simp: server_threw answer_status_def)
  have r: "req_method req = js ''GET''
           \<and> (\<exists>b c m y. pathSegments p = [js ''cardinfo'', b, c, m, y])"
  proof (rule ccontr)
    assume "\<not> ?thesis"
    with u have "server url_parse P net now req = Answered not_found"
      by (rule server_not_routed [where url_parse = url_parse])
    with assms show False by (simp add: not_found_def answer_status_def)
  qed
  then obtain b c m y where g: "req_method req = js ''GET''"
    and s: "pathSegments p = [js ''cardinfo'', b, c, m, y]" by blast
  have v: "luhnCheck c \<and> isExpiryValid now m y"
  proof (rule ccontr)
    assume "\<not> ?thesis"
    then have "\<not> luhnCheck c \<or> \<not> isExpiryValid now m y" by simp
    from server_invalid [where url_parse = url_parse and P = P and net = net, OF u g s this]
      assms
    show False by (auto simp: answer_status_def)
  qed
  then have sv: "server url_parse P net now req =
     (let response = \<lparr>metadata = API_METADATA,
                request = \<lparr>bin = b, cardNumber = c, expiryMonth = m, expiryYear = y\<rparr>,
                validation = \<lparr>luhn_valid = Some True, expiry_valid = Some True\<rparr>,
                card_info = None,
                status = js ''error'',
                message = js ''Processamento iniciado.''\<rparr>
      in case lookupBin P net b of
           (sent, None) \<Rightarrow> NeverSettled sent
         | (sent, Some (Inr binData)) \<Rightarrow>
             (let response = response\<lparr>status := js ''success'', message :=
                         js ''Valida'' @ [0xE7, 0xE3] @ js ''o e consulta conclu'' @ [0xED]
                           @ js ''das com sucesso.''\<rparr>
              in case card_info_of binData of
                   Some info \<Rightarrow>
                     Answered
                       \<lparr>statusCode = 200,
                        body = Enriched (response\<lparr>card_info := Some info\<rparr>),
                        outbound = sent\<rparr>
                 | None \<Rightarrow> Answered (catch_block response sent TypeError))
         | (sent, Some (Inl e)) \<Rightarrow> Answered (catch_block response sent e))"
    using server_valid [where url_parse = url_parse and P = P and net = net, OF u g s] by simp
  obtain sent settled where lb: "lookupBin P net b = (sent, settled)"
    by (cases "lookupBin P net b")
  show ?thesis
  proof (cases settled)
    case None
    with sv lb assms show ?thesis by (simp add: Let_def answer_status_def)
  next
    case (Some res)
    show ?thesis
    proof (cases res)
      case (Inl e)
      with Some lb have "snd (lookupBin P net b) = Some (Inl e)" by simp
      from lookupBin_failure [OF this] sv lb Some Inl assms show ?thesis
        by (auto simp: Let_def catch_block_def answer_status_def)
    next
      case (Inr d)
      show ?thesis
      proof (cases "card_info_of d")
        case None
        with sv lb Some Inr assms show ?thesis
          by (simp add: Let_def catch_block_def answer_status_def)
      next
        case i: (Some info)
        then have "d \<noteq> JNull \<and> d \<noteq> JUndefined"
          using card_info_of_null by auto
        with sv lb Some Inr i s u show ?thesis
          by (simp add: Let_def answer_card_info_def reply_card_info_def)
      qed
    qed
  qed
qed

text \<open>
  C7, as stated, fails at the upstream reply \<open>{"country":{"name":"Denmark"}}\<close>: the
  response is a 200, \<open>country.alpha2\<close> is absent from the upstream JSON, and the
  \<open>alpha2\<close> of \<open>card_info.country\<close> is \<open>undefined\<close>, not the sentinel; a property
  whose value is \<open>undefined\<close> is left out by \<open>JSON.stringify\<close>.
\<close>

theorem absent_alpha2_not_defaulted:
  "answer_status
     (server url_parse_examples parse_examples replies_denmark clock_2025_11 example_request)
     = Some 200
   \<and> snd (lookupBin parse_examples replies_denmark (js ''457173'')) = Some (Inr denmark)
   \<and> read_prop (read_prop denmark (js ''country'')) (js ''alpha2'') = JUndefined
   \<and> map_option (alpha2 \<circ> country)
        (answer_card_info
           (server url_parse_examples parse_examples replies_denmark clock_2025_11
              example_request))
       = Some JUndefined
   \<and> JUndefined \<noteq> NA"
  by code_simp

text \<open>
  C7, amended: in a 200 response, with \<open>d\<close> the parsed upstream reply, \<open>scheme\<close>,
  \<open>brand\<close> and \<open>type\<close> are the sentinel \<open>N/A\<close> when absent from \<open>d\<close>, and \<open>prepaid\<close>
  is \<open>Nao\<close> (the word for no) when absent. When \<open>number\<close>, \<open>country\<close> or \<open>bank\<close> is absent,
  each field of the matching group of \<open>card_info\<close> is \<open>N/A\<close>. When that parent is
  present (truthy), its fields are copied as they are read, so that a field absent from
  a present parent is \<open>undefined\<close> and not a sentinel; \<open>luhn_check_status\<close> alone is
  then \<open>Sim\<close> or \<open>Nao\<close>, \<open>Nao\<close> when \<open>number.luhn\<close> is absent.
\<close>

theorem card_info_defaults:
  assumes "answer_status (server url_parse P net now req) = Some 200"
  shows "\<exists>p d info.
     url_parse (req_url req) = Some p
     \<and> snd (lookupBin P net (pathSegments p ! 1)) = Some (Inr d)
     \<and> answer_card_info (server url_parse P net now req) = Some info
     \<and> (read_prop d (js ''scheme'') = JUndefined \<longrightarrow> scheme info = NA)
     \<and> (read_prop d (js ''brand'') = JUndefined \<longrightarrow> brand info = NA)
     \<and> (read_prop d (js ''type'') = JUndefined \<longrightarrow> type_field info = NA)
     \<and> (read_prop d (js ''prepaid'') = JUndefined \<longrightarrow> prepaid info = Nao)
     \<and> (read_prop d (js ''number'') = JUndefined \<longrightarrow>
          number_details info = \<lparr>length_field = NA, luhn_check_status = NA\<rparr>)
     \<and> (read_prop d (js ''country'') = JUndefined \<longrightarrow>
          country info =
            \<lparr>country_name = NA, alpha2 = NA, numeric = NA, currency = NA, emoji = NA,
             coordinates = \<lparr>latitude = NA, longitude = NA\<rparr>\<rparr>)
     \<and> (read_prop d (js ''bank'') = JUndefined \<longrightarrow>
          bank info = \<lparr>bank_name = NA, url = NA, phone_sac = NA, city = NA\<rparr>)
     \<and> (truthy (read_prop d (js ''number'')) \<longrightarrow>
          number_details info =
            \<lparr>length_field = read_prop (read_prop d (js ''number'')) (js ''length''),
             luhn_check_status =
               (if truthy (read_prop (read_prop d (js ''number'')) (js ''luhn''))
                then Sim else Nao)\<rparr>)
     \<and> (truthy (read_prop d (js ''country'')) \<longrightarrow>
          country info =
            \<lparr>country_name = read_prop (read_prop d (js ''country'')) (js ''name''),
             alpha2 = read_prop (read_prop d (js ''country'')) (js ''alpha2''),
             numeric = read_prop (read_prop d (js ''country'')) (js ''numeric''),
             currency = read_prop (read_prop d (js ''country'')) (js ''currency''),
             emoji = read_prop (read_prop d (js ''country'')) (js ''emoji''),
             coordinates =
               \<lparr>latitude = read_prop (read_prop d (js ''country'')) (js ''latitude''),
                longitude = read_prop (read_prop d (js ''country'')) (js ''longitude'')\<rparr>\<rparr>)
     \<and> (truthy (read_prop d (js ''bank'')) \<longrightarrow>
          bank info =
            \<lparr>bank_name = read_prop (read_prop d (js ''bank'')) (js ''name''),
             url = read_prop (read_prop d (js ''bank'')) (js ''url''),
             phone_sac = read_prop (read_prop d (js ''bank'')) (js ''phone''),
             city = read_prop (read_prop d (js ''bank'')) (js ''city'')\<rparr>)"
proof -
  from server_200 [OF assms]
  obtain p d info where u: "url_parse (req_url req) = Some p"
    and l: "snd (lookupBin P net (pathSegments p ! 1)) = Some (Inr d)"
    and n: "d \<noteq> JNull" "d \<noteq> JUndefined"
    and c: "card_info_of d = Some info"
    and r: "answer_card_info (server url_parse P net now req) = Some info"
    by blast
  note i = c [unfolded card_info_of_value [OF n], simplified, symmetric]
  have 1: "read_prop d (js ''scheme'') = JUndefined \<longrightarrow> scheme info = NA"
    by (simp add: i top_field_def)
  have 2: "read_prop d (js ''brand'') = JUndefined \<longrightarrow> brand info = NA"
    by (simp add: i top_field_def)
  have 3: "read_prop d (js ''type'') = JUndefined \<longrightarrow> type_field info = NA"
    by (simp add: i top_field_def)
  have 4: "read_prop d (js ''prepaid'') = JUndefined \<longrightarrow> prepaid info = Nao"
    by (simp add: i)
  have 5: "read_prop d (js ''number'') = JUndefined \<longrightarrow>
          number_details info = \<lparr>length_field = NA, luhn_check_status = NA\<rparr>"
    by (simp add: i nested_field_def)
  have 6: "read_prop d (js ''country'') = JUndefined \<longrightarrow>
          country info =
            \<lparr>country_name = NA, alpha2 = NA, numeric = NA, currency = NA, emoji = NA,
             coordinates = \<lparr>latitude = NA, longitude = NA\<rparr>\<rparr>"
    by (simp add: i nested_field_def)
  have 7: "read_prop d (js ''bank'') = JUndefined \<longrightarrow>
          bank info = \<lparr>bank_name = NA, url = NA, phone_sac = NA, city = NA\<rparr>"
    by (simp add: i nested_field_def)
  have 8: "truthy (read_prop d (js ''number'')) \<longrightarrow>
          number_details info =
            \<lparr>length_field = read_prop (read_prop d (js ''number'')) (js ''length''),
             luhn_check_status =
               (if truthy (read_prop (read_prop d (js ''number'')) (js ''luhn''))
                then Sim else Nao)\<rparr>"
    by (simp add: i nested_field_def)
  have 9: "truthy (read_prop d (js ''country'')) \<longrightarrow>
          country info =
            \<lparr>country_name = read_prop (read_prop d (js ''country'')) (js ''name''),
             alpha2 = read_prop (read_prop d (js ''country'')) (js ''alpha2''),
             numeric = read_prop (read_prop d (js ''country'')) (js ''numeric''),
             currency = read_prop (read_prop d (js ''country'')) (js ''currency''),
             emoji = read_prop (read_prop d (js ''country'')) (js ''emoji''),
             coordinates =
               \<lparr>latitude = read_prop (read_prop d (js ''country'')) (js ''latitude''),
                longitude = read_prop (read_prop d (js ''country'')) (js ''longitude'')\<rparr>\<rparr>"
    by (simp add: i nested_field_def)
  have 10: "truthy (read_prop d (js ''bank'')) \<longrightarrow>
          bank info =
            \<lparr>bank_name = read_prop (read_prop d (js ''bank'')) (js ''name''),
             url = read_prop (read_prop d (js ''bank'')) (js ''url''),
             phone_sac = read_prop (read_prop d (js ''bank'')) (js ''phone''),
             city = read_prop (read_prop d (js ''bank'')) (js ''city'')\<rparr>"
    by (simp add: i nested_field_def)
  from u l r 1 2 3 4 5 6 7 8 9 10 show ?thesis by blast
qed

theorem card_info_defaults_witness:
  "map_option scheme
     (answer_card_info
        (server url_parse_examples parse_examples replies_denmark clock_2025_11
           example_request))
     = Some NA
   \<and> map_option bank
       (answer_card_info
          (server url_parse_examples parse_examples replies_denmark clock_2025_11
             example_request))
     = Some \<lparr>bank_name = NA, url = NA, phone_sac = NA, city = NA\<rparr>
   \<and> map_option (country_name \<circ> country)
       (answer_card_info
          (server url_parse_examples parse_examples replies_denmark clock_2025_11
             example_request))
     = Some (JString (js ''Denmark''))"
proof -
  have h: "answer_status
     (server url_parse_examples parse_examples replies_denmark clock_2025_11 example_request)
     = Some 200"
    by code_simp
  have u: "url_parse_examples (req_url example_request)
           = Some (js ''/cardinfo/457173/4571736000000000/12/28'')"
    by code_simp
  have p: "snd (lookupBin parse_examples replies_denmark
                  (pathSegments (js ''/cardinfo/457173/4571736000000000/12/28'') ! 1))
           = Some (Inr denmark)"
    by code_simp
  have s: "read_prop denmark (js ''scheme'') = JUndefined"
    "read_prop denmark (js ''bank'') = JUndefined"
    "truthy (read_prop denmark (js ''country''))"
    "read_prop (read_prop denmark (js ''country'')) (js ''name'') = JString (js ''Denmark'')"
    by code_simp+
  from card_info_defaults [OF h] u p s show ?thesis
    by auto
qed

text \<open>
  C4 holds but for one outcome. When the upstream service answers 200 with the body
  \<open>null\<close>, \<open>JSON.parse\<close> succeeds and \<open>lookupBin\<close> resolves with \<open>null\<close>; the
  handler then reads \<open>binData.scheme\<close>, which throws inside the \<open>try\<close>; the \<open>catch\<close>
  block answers 500 with the default message, \<open>card_info\<close> null, and the \<open>status\<close>
  field already set to \<open>success\<close>. And when the upstream response is cut off after
  its headers, the promise is not settled and the handler writes no reply at all.
\<close>

theorem null_reply_answers_500:
  "lookupBin parse_examples replies_null (js ''457173'')
     = ([js ''/457173''], Some (Inr JNull))
   \<and> answer_status
       (server url_parse_examples parse_examples replies_null clock_2025_11 example_request)
       = Some 500
   \<and> answer_card_info
       (server url_parse_examples parse_examples replies_null clock_2025_11 example_request)
       = None
   \<and> map_option status
        (answer_response
           (server url_parse_examples parse_examples replies_null clock_2025_11
              example_request))
       = Some (js ''success'')
   \<and> map_option message
        (answer_response
           (server url_parse_examples parse_examples replies_null clock_2025_11
              example_request))
       = Some (js ''Erro interno do servidor durante a consulta externa.'')
   \<and> server url_parse_examples parse_examples cut_off clock_2025_11 example_request
       = NeverSettled [js ''/457173'']"
  by code_simp

text \<open>
  The other outcomes, for a routed request whose card number and expiry are valid. When
  \<open>https.request\<close> refuses the path \<open>/{bin}\<close>, no request is issued and the reply is a
  500 with the default message. Otherwise one outbound request is issued, for that
  path: a 200 whose body parses to a value other than \<open>null\<close> gives a 200 with
  \<open>card_info\<close> built from it; a 404 gives a 404; any other status, a body that does
  not parse and a request error give a 500; in each failure \<open>card_info\<close> is null and the
  message is that of the rejection; a response cut off after its headers leaves the
  request without a reply.
\<close>

theorem server_upstream_outcomes:
  assumes "url_parse (req_url req) = Some p"
    and "req_method req = js ''GET''"
    and "pathSegments p = [js ''cardinfo'', b, c, m, y]"
    and "luhnCheck c" and "isExpiryValid now m y"
  shows "(\<not> valid_request_path (0x2F # b)
        \<longrightarrow> requests_issued (server url_parse P net now req) = []
            \<and> answer_status (server url_parse P net now req) = Some 500
            \<and> answer_card_info (server url_parse P net now req) = None
            \<and> map_option message (answer_response (server url_parse P net now req))
                = Some (js ''Erro interno do servidor durante a consulta externa.''))
     \<and> (valid_request_path (0x2F # b)
        \<longrightarrow> requests_issued (server url_parse P net now req) = [0x2F # b])
     \<and> (valid_request_path (0x2F # b) \<and> net (0x2F # b) = Ended 200 data \<and> P data = Inr d
         \<and> d \<noteq> JNull \<and> d \<noteq> JUndefined
        \<longrightarrow> answer_status (server url_parse P net now req) = Some 200
            \<and> answer_card_info (server url_parse P net now req) = card_info_of d
            \<and> card_info_of d \<noteq> None
            \<and> map_option status (answer_response (server url_parse P net now req))
                = Some (js ''success''))
     \<and> (valid_request_path (0x2F # b) \<and> net (0x2F # b) = Ended 404 data
        \<longrightarrow> answer_status (server url_parse P net now req) = Some 404
            \<and> answer_card_info (server url_parse P net now req) = None
            \<and> map_option message (answer_response (server url_parse P net now req))
                = Some (js ''BIN n'' @ [0xE3] @ js ''o encontrado na base de dados.''))
     \<and> (valid_request_path (0x2F # b) \<and> net (0x2F # b) = Ended st data
         \<and> st \<noteq> 200 \<and> st \<noteq> 404
        \<longrightarrow> answer_status (server url_parse P net now req) = Some 500
            \<and> answer_card_info (server url_parse P net now req) = None
            \<and> map_option message (answer_response (server url_parse P net now req))
                = Some (js ''Erro na consulta '' @ [0xE0] @ js '' BIN List: Status ''
                          @ decimal st))
     \<and> (valid_request_path (0x2F # b) \<and> net (0x2F # b) = Ended 200 data \<and> P data = Inl msg
        \<longrightarrow> answer_status (server url_parse P net now req) = Some 500
            \<and> answer_card_info (server url_parse P net now req) = None
            \<and> map_option message (answer_response (server url_parse P net now req))
                = Some (js ''Erro ao analisar a resposta da BIN List''))
     \<and> (valid_request_path (0x2F # b) \<and> net (0x2F # b) = RequestError msg
        \<longrightarrow> answer_status (server url_parse P net now req) = Some 500
            \<and> answer_card_info (server url_parse P net now req) = None
            \<and> map_option message (answer_response (server url_parse P net now req))
                = Some (js ''Erro na requisi'' @ [0xE7, 0xE3]
                          @ js ''o HTTP para a BIN List''))
     \<and> (valid_request_path (0x2F # b) \<and> net (0x2F # b) = Aborted
        \<longrightarrow> server url_parse P net now req = NeverSettled [0x2F # b])"
proof -
  note sv = server_valid [where url_parse = url_parse and P = P and net = net, OF assms]
  note sel = answer_status_def answer_card_info_def answer_response_def requests_issued_def
    reply_card_info_def reply_response_def
  have ne: "js ''Erro ao analisar a resposta da BIN List'' \<noteq> []"
    "js ''Erro na consulta '' \<noteq> []" "js ''BIN n'' \<noteq> []" "js ''Erro na requisi'' \<noteq> []"
    by (simp_all add: js_def)
  have iv: "\<not> valid_request_path (0x2F # b)
        \<longrightarrow> requests_issued (server url_parse P net now req) = []
            \<and> answer_status (server url_parse P net now req) = Some 500
            \<and> answer_card_info (server url_parse P net now req) = None
            \<and> map_option message (answer_response (server url_parse P net now req))
                = Some (js ''Erro interno do servidor durante a consulta externa.'')"
    by (simp add: sv Let_def lookupBin_def options_path_def catch_block_def sel)
  have o: "valid_request_path (0x2F # b)
        \<longrightarrow> requests_issued (server url_parse P net now req) = [0x2F # b]"
    by (simp add: sv Let_def lookupBin_def options_path_def catch_block_def sel
          split: upstream.splits sum.splits option.splits)
  have ok: "valid_request_path (0x2F # b) \<and> net (0x2F # b) = Ended 200 data \<and> P data = Inr d
         \<and> d \<noteq> JNull \<and> d \<noteq> JUndefined
        \<longrightarrow> answer_status (server url_parse P net now req) = Some 200
            \<and> answer_card_info (server url_parse P net now req) = card_info_of d
            \<and> card_info_of d \<noteq> None
            \<and> map_option status (answer_response (server url_parse P net now req))
                = Some (js ''success'')"
  proof
    assume a: "valid_request_path (0x2F # b) \<and> net (0x2F # b) = Ended 200 data
               \<and> P data = Inr d \<and> d \<noteq> JNull \<and> d \<noteq> JUndefined"
    then have l: "lookupBin P net b = ([0x2F # b], Some (Inr d))"
      by (simp add: lookupBin_def Let_def options_path_def)
    from a obtain info where i: "card_info_of d = Some info"
      using card_info_of_value [of d] by blast
    show "answer_status (server url_parse P net now req) = Some 200
            \<and> answer_card_info (server url_parse P net now req) = card_info_of d
            \<and> card_info_of d \<noteq> None
            \<and> map_option status (answer_response (server url_parse P net now req))
                = Some (js ''success'')"
      by (simp add: sv l i Let_def sel)
  qed
  have nf: "valid_request_path (0x2F # b) \<and> net (0x2F # b) = Ended 404 data
        \<longrightarrow> answer_status (server url_parse P net now req) = Some 404
            \<and> answer_card_info (server url_parse P net now req) = None
            \<and> map_option message (answer_response (server url_parse P net now req))
                = Some (js ''BIN n'' @ [0xE3] @ js ''o encontrado na base de dados.'')"
    by (simp add: sv Let_def lookupBin_def options_path_def catch_block_def ne sel)
  have ot: "valid_request_path (0x2F # b) \<and> net (0x2F # b) = Ended st data
         \<and> st \<noteq> 200 \<and> st \<noteq> 404
        \<longrightarrow> answer_status (server url_parse P net now req) = Some 500
            \<and> answer_card_info (server url_parse P net now req) = None
            \<and> map_option message (answer_response (server url_parse P net now req))
                = Some (js ''Erro na consulta '' @ [0xE0] @ js '' BIN List: Status ''
                          @ decimal st)"
    by (simp add: sv Let_def lookupBin_def options_path_def catch_block_def ne sel)
  have pe: "valid_request_path (0x2F # b) \<and> net (0x2F # b) = Ended 200 data
         \<and> P data = Inl msg
        \<longrightarrow> answer_status (server url_parse P net now req) = Some 500
            \<and> answer_card_info (server url_parse P net now req) = None
            \<and> map_option message (answer_response (server url_parse P net now req))
                = Some (js ''Erro ao analisar a resposta da BIN List'')"
    by (simp add: sv Let_def lookupBin_def options_path_def catch_block_def ne sel)
  have re: "valid_request_path (0x2F # b) \<and> net (0x2F # b) = RequestError msg
        \<longrightarrow> answer_status (server url_parse P net now req) = Some 500
            \<and> answer_card_info (server url_parse P net now req) = None
            \<and> map_option message (answer_response (server url_parse P net now req))
                = Some (js ''Erro na requisi'' @ [0xE7, 0xE3]
                          @ js ''o HTTP para a BIN List'')"
    by (simp add: sv Let_def lookupBin_def options_path_def catch_block_def ne sel)
  have ab: "valid_request_path (0x2F # b) \<and> net (0x2F # b) = Aborted
        \<longrightarrow> server url_parse P net now req = NeverSettled [0x2F # b]"
    by (simp add: sv Let_def lookupBin_def options_path_def)
  from iv o ok nf ot pe re ab show ?thesis by blast
qed

theorem server_upstream_outcomes_witness:
  "answer_status
     (server url_parse_examples parse_examples network_down clock_2025_11 example_request)
     = Some 500
   \<and> requests_issued
       (server url_parse_examples parse_examples network_down clock_2025_11 example_request)
       = [js ''/457173'']
   \<and> answer_card_info
       (server url_parse_examples parse_examples network_down clock_2025_11 example_request)
       = None"
proof -
  have a: "req_method example_request = js ''GET''"
    by (simp add: example_request_def)
  have u: "url_parse_examples (req_url example_request)
           = Some (js ''/cardinfo/457173/4571736000000000/12/28'')"
    by code_simp
  have b: "pathSegments (js ''/cardinfo/457173/4571736000000000/12/28'')
     = [js ''cardinfo'', js ''457173'', js ''4571736000000000'', js ''12'', js ''28'']"
    by code_simp
  have l: "luhnCheck (js ''4571736000000000'')" by code_simp
  have e: "isExpiryValid clock_2025_11 (js ''12'') (js ''28'')" by code_simp
  have v: "valid_request_path (0x2F # js ''457173'')" by code_simp
  have n: "network_down (0x2F # js ''457173'') = RequestError (js ''connect ECONNREFUSED'')"
    by (simp add: network_down_def)
  have p: "0x2F # js ''457173'' = js ''/457173''" by (simp add: js_def)
  from server_upstream_outcomes [where url_parse = url_parse_examples
                                    and P = parse_examples and net = network_down
                                    and msg = "js ''connect ECONNREFUSED''",
                                  OF u a b l e] v n p
  show ?thesis by simp
qed

end
